theory Spec2Isabelle
  imports Complex_Main
begin

section \<open>Data model shared by the two variants of the engine\<close>

text \<open>
  The repository holds two variants of the application component in \<^verbatim>\<open>App.tsx\<close>:
  variant A (tool \<^verbatim>\<open>update_spark_mood\<close>, with mute and deafen flags) and variant B
  (tools \<^verbatim>\<open>update_sparky_mood\<close> and \<^verbatim>\<open>report_faces\<close>, with exponential backoff).
  Both are embedded here, event handler by event handler.

  Conventions of the embedding.
  \<^item> Times (the audio clock \<^verbatim>\<open>currentTime\<close>, buffer durations, the playback cursor
    \<^verbatim>\<open>nextStartTimeRef\<close>) and volumes are JavaScript numbers; they are modelled as reals,
    so rounding of floating point arithmetic is not part of the model.
  \<^item> React state and the \<^verbatim>\<open>useRef\<close> cells are fields of one record. A state setter
    is an update of its field; a \<^verbatim>\<open>useEffect\<close> body is a function of its own.
  \<^item> Effects on the outside world are logged in the record: \<^verbatim>\<open>source.start(t)\<close> appends
    to \<open>started\<close>, \<^verbatim>\<open>source.stop()\<close> appends to \<open>stopped\<close>, a frame handed to the
    session appends to \<open>sent\<close>, \<^verbatim>\<open>setTimeout\<close> appends to \<open>timeouts\<close>.
  \<^item> A handler runs to completion as one step. Where an \<^verbatim>\<open>await\<close> can reject, the
    handler's result says so (\<open>Rejected\<close>) and keeps the updates made before.
  \<^item> A handler that reads a state variable itself, and not its ref, reads the value of
    the render in which the handler was made. Such a value is a parameter of the
    function (\<open>isInit\<close> of \<^verbatim>\<open>startSession\<close>) or a field written when the handler is made
    (\<open>isActiveClosure\<close> of variant B).
  \<^item> UI sounds, console output, canvas drawing, log timestamps and the timers that
    clear a gesture or the face boxes after a while are left out. So are the camera and
    the gesture and face handlers, which touch neither the playback cursor nor the
    in-flight set nor the transcript accumulators.
\<close>

datatype RobotState = IDLE | CONNECTING | LISTENING | THINKING | SPEAKING | ERROR

datatype entry_type = User | Robot | System

record TranscriptionEntry =
  etype :: entry_type
  etext :: string

datatype severity = Critical | Warning

record error_detail =
  message :: string
  severity :: severity

text \<open>A JavaScript error object, as far as \<^verbatim>\<open>handleError\<close> reads it.\<close>

record js_error =
  err_name :: string
  err_message :: string

text \<open>
  An \<^verbatim>\<open>AudioBufferSourceNode\<close>: its identity (the order of creation), the time it was
  started at and the duration of its buffer.
\<close>

record source =
  sid :: nat
  startAt :: real
  duration :: real

datatype media_data = PcmData "int list" | ImageData string | TextData string

datatype out_frame =
    RealtimeInput media_data string
  | ToolResponse string string string
  | TextTurn string

text \<open>
  A function call of a \<^verbatim>\<open>toolCall\<close> message. The arguments are taken to have the
  fields of the declared schemas, as the casts of the source assume.
\<close>

record function_call =
  fc_id :: string
  fc_name :: string
  fc_mood :: string
  fc_reason :: string
  fc_faces :: "real list list"

text \<open>
  A part of a model turn. \<open>InlineData dec now\<close> is a part with audio: \<open>dec\<close> is the
  duration of the buffer \<^verbatim>\<open>decodeAudioData\<close> returns (\<open>None\<close> when it rejects) and
  \<open>now\<close> is the reading of \<^verbatim>\<open>outputAudioCtxRef.current.currentTime\<close> taken for this part.
\<close>

datatype part = InlineData "real option" real | NoInlineData

record server_message =
  outputTranscription :: "string option"
  inputTranscription :: "string option"
  turnComplete :: bool
  toolCall :: "function_call list option"
  modelTurn :: "part list option"
  interrupted :: bool

datatype 's outcome = Completed 's | Rejected 's

fun final :: "'s outcome \<Rightarrow> 's" where
  "final (Completed s) = s"
| "final (Rejected s) = s"

record engine =
  robotState :: RobotState
  robotStateRef :: RobotState
  mood :: string
  isActive :: bool
  isCameraOn :: bool
  history :: "TranscriptionEntry list"
  volume :: real
  isInitialized :: bool
  errorDetail :: "error_detail option"
  nextStartTimeRef :: real
  sourcesRef :: "source list"
  sessionRef :: bool
  started :: "source list"
  stopped :: "nat list"
  sent :: "out_frame list"
  created :: nat
  timeouts :: "(real \<times> nat) list"

section \<open>Variant A\<close>

record stateA = engine +
  isActiveRef :: bool
  isMuted :: bool
  isMutedRef :: bool
  isDeafened :: bool
  isDeafenedRef :: bool
  liveInput :: string
  liveOutput :: string
  outputAudioCtxRef :: bool
  ttsPending :: nat

text \<open>\<^verbatim>\<open>String.prototype.includes\<close>.\<close>

fun startsWith :: "string \<Rightarrow> string \<Rightarrow> bool" where
  "startsWith s [] = True"
| "startsWith [] (c # cs) = False"
| "startsWith (x # xs) (c # cs) = (x = c \<and> startsWith xs cs)"

fun str_includes :: "string \<Rightarrow> string \<Rightarrow> bool" where
  "str_includes [] sub = (sub = [])"
| "str_includes (x # xs) sub = (startsWith (x # xs) sub \<or> str_includes xs sub)"

text \<open>\<^verbatim>\<open>addLog\<close>: an empty text is not logged.\<close>

definition addLog :: "entry_type \<Rightarrow> string \<Rightarrow> stateA \<Rightarrow> stateA" where
  "addLog t txt s =
     (if txt = [] then s else s\<lparr>history := history s @ [\<lparr>etype = t, etext = txt\<rparr>]\<rparr>)"

text \<open>
  The loop \<^verbatim>\<open>for (const source of sourcesRef.current) source.stop()\<close> followed by
  \<^verbatim>\<open>sourcesRef.current.clear()\<close>, which both variants write out in several handlers.
\<close>

definition stopSources :: "'a engine_scheme \<Rightarrow> 'a engine_scheme" where
  "stopSources s = s\<lparr>stopped := stopped s @ map sid (sourcesRef s), sourcesRef := []\<rparr>"

definition stopSessionA :: "stateA \<Rightarrow> stateA" where
  "stopSessionA s =
     addLog System ''NEURAL LINK DEACTIVATED.''
       ((stopSources s)\<lparr>outputAudioCtxRef := False, sessionRef := False,
          nextStartTimeRef := 0, isActive := False, isCameraOn := False,
          robotState := IDLE, mood := ''neutral'', volume := 0,
          liveInput := [], liveOutput := []\<rparr>)"

definition classifyA :: "js_error \<Rightarrow> string \<times> severity" where
  "classifyA error =
     (let errMsg = err_message error in
      if str_includes errMsg ''Operation is not implemented'' \<or> str_includes errMsg ''not supported''
      then (''Certain neural features are limited. Restricted vision tools detected.'', Warning)
      else if err_name error = ''NotAllowedError'' then (''Hardware access denied.'', Critical)
      else if str_includes errMsg ''API_KEY'' then (''Configuration error: Invalid Key.'', Critical)
      else (''An unexpected error occurred.'', Warning))"

definition handleErrorA :: "js_error \<Rightarrow> stateA \<Rightarrow> stateA" where
  "handleErrorA error s =
     (let (userMessage, type) = classifyA error;
          s1 = addLog System (''ERROR: '' @ userMessage)
                 (s\<lparr>errorDetail := Some \<lparr>message = userMessage, severity = type\<rparr>\<rparr>)
      in if type = Critical then (stopSessionA s1)\<lparr>robotState := ERROR\<rparr> else s1)"

subsection \<open>Playback scheduling\<close>

text \<open>
  The scheduling block of \<^verbatim>\<open>onmessage\<close> (and of \<^verbatim>\<open>speakText\<close>) for one decoded
  buffer of duration \<open>d\<close>, with the audio clock reading \<open>now\<close>.
\<close>

definition enqueueA :: "real \<Rightarrow> real \<Rightarrow> stateA \<Rightarrow> stateA" where
  "enqueueA now d s =
     (let startTime = max (nextStartTimeRef s) now;
          src = \<lparr>sid = created s, startAt = startTime, duration = d\<rparr>
      in s\<lparr>created := created s + 1, robotState := SPEAKING,
           started := started s @ [src],
           nextStartTimeRef := startTime + d,
           sourcesRef := sourcesRef s @ [src]\<rparr>)"

text \<open>\<^verbatim>\<open>source.onended\<close> of the source with identity \<open>i\<close>.\<close>

definition onended :: "nat \<Rightarrow> 'a engine_scheme \<Rightarrow> 'a engine_scheme" where
  "onended i s =
     (let s1 = s\<lparr>sourcesRef := filter (\<lambda>x. sid x \<noteq> i) (sourcesRef s)\<rparr>
      in if sourcesRef s1 = [] then s1\<lparr>robotState := LISTENING, volume := 0\<rparr> else s1)"

subsection \<open>The inbound message handler\<close>

definition transcriptionA :: "server_message \<Rightarrow> stateA \<Rightarrow> stateA" where
  "transcriptionA m s =
     (case outputTranscription m of
        Some t \<Rightarrow> s\<lparr>liveOutput := liveOutput s @ t\<rparr>
      | None \<Rightarrow>
          (case inputTranscription m of
             Some t \<Rightarrow> s\<lparr>liveInput := liveInput s @ t\<rparr>
           | None \<Rightarrow> s))"

definition turnCompleteA :: "server_message \<Rightarrow> stateA \<Rightarrow> stateA" where
  "turnCompleteA m s =
     (if turnComplete m
      then (addLog Robot (liveOutput s) (addLog User (liveInput s) s))
             \<lparr>liveInput := [], liveOutput := []\<rparr>
      else s)"

fun toolCallsA :: "function_call list \<Rightarrow> stateA \<Rightarrow> stateA" where
  "toolCallsA [] s = s"
| "toolCallsA (fc # fcs) s =
     toolCallsA fcs
       (if fc_name fc = ''update_spark_mood''
        then s\<lparr>mood := fc_mood fc,
               sent := sent s @ [ToolResponse (fc_id fc) (fc_name fc) ''Mood synced.'']\<rparr>
        else s)"

text \<open>
  The loop over the parts of a model turn. \<^verbatim>\<open>decodeAudioData\<close> is awaited with no
  handler around it, so a rejection ends the whole message handler. The output audio
  context, which the loop dereferences without a check, is taken to exist whenever a
  part with audio is handled.
\<close>

fun partsA :: "part list \<Rightarrow> stateA \<Rightarrow> stateA outcome" where
  "partsA [] s = Completed s"
| "partsA (NoInlineData # ps) s = partsA ps s"
| "partsA (InlineData None now # ps) s = Rejected s"
| "partsA (InlineData (Some d) now # ps) s = partsA ps (enqueueA now d s)"

definition interruptedA :: "stateA \<Rightarrow> stateA" where
  "interruptedA s =
     (stopSources s)\<lparr>nextStartTimeRef := 0, robotState := LISTENING, volume := 0,
        liveOutput := []\<rparr>"

text \<open>The handler in its order: transcriptions, turn completion, tool calls; then the
  model turn; then the interruption flag. A deafened engine returns at once.\<close>

definition toolsA :: "server_message \<Rightarrow> stateA \<Rightarrow> stateA" where
  "toolsA m s = (case toolCall m of None \<Rightarrow> s | Some fcs \<Rightarrow> toolCallsA fcs s)"

definition audioA :: "server_message \<Rightarrow> stateA \<Rightarrow> stateA outcome" where
  "audioA m s = (case modelTurn m of None \<Rightarrow> Completed s | Some ps \<Rightarrow> partsA ps s)"

definition onmessageA :: "server_message \<Rightarrow> stateA \<Rightarrow> stateA outcome" where
  "onmessageA m s =
     (if isDeafenedRef s then Completed s
      else
        case audioA m (toolsA m (turnCompleteA m (transcriptionA m s))) of
          Rejected s3 \<Rightarrow> Rejected s3
        | Completed s3 \<Rightarrow> Completed (if interrupted m then interruptedA s3 else s3))"

subsection \<open>Effects, toggles and the greeting\<close>

text \<open>
  The \<^verbatim>\<open>useEffect\<close> bodies that mirror a state into its ref cell. The one of
  \<^verbatim>\<open>isDeafened\<close> also silences the playback when the flag is on.
\<close>

definition effect_isDeafened :: "stateA \<Rightarrow> stateA" where
  "effect_isDeafened s =
     (let s1 = s\<lparr>isDeafenedRef := isDeafened s\<rparr>
      in if isDeafened s then (stopSources s1)\<lparr>robotState := LISTENING, volume := 0\<rparr>
         else s1)"

definition effect_isMuted :: "stateA \<Rightarrow> stateA" where
  "effect_isMuted s = s\<lparr>isMutedRef := isMuted s\<rparr>"

definition effectsA :: "stateA \<Rightarrow> stateA" where
  "effectsA s = s\<lparr>robotStateRef := robotState s, isActiveRef := isActive s\<rparr>"

text \<open>The two buttons: the setter, then the effect of the changed flag.\<close>

definition toggleDeafen :: "stateA \<Rightarrow> stateA" where
  "toggleDeafen s = effect_isDeafened (s\<lparr>isDeafened := \<not> isDeafened s\<rparr>)"

definition toggleMute :: "stateA \<Rightarrow> stateA" where
  "toggleMute s = effect_isMuted (s\<lparr>isMuted := \<not> isMuted s\<rparr>)"

definition GREETING_TEXT :: string where
  "GREETING_TEXT = ''Hi, I am an AI companion, you can talk to me in any language and I will do my best to reply back in the same language. You can interact with me as you are speaking to a friend. Also you can open the camera by pressing the eye icon below, for more interactive features. However do remember that you agree to the terms and conditions in the link below before using the app''"

text \<open>
  \<^verbatim>\<open>speakText\<close> in two halves, around its \<^verbatim>\<open>await\<close> of the speech request.
  \<open>speakTextAsked\<close> is the entry check (the key is present once a session is open);
  \<open>ttsPending\<close> counts the requests that passed it and are not answered yet.
  \<open>speakTextResume\<close> is the code after the request: \<open>dec\<close> is the duration of the decoded
  answer, \<open>None\<close> when the answer holds no audio or anything in the \<^verbatim>\<open>try\<close> block throws.
  The deafened flag is read at the entry only.
\<close>

definition speakTextAsked :: "string \<Rightarrow> stateA \<Rightarrow> bool" where
  "speakTextAsked txt s = (\<not> (txt = [] \<or> isDeafenedRef s))"

definition speakTextResume :: "string \<Rightarrow> real option \<Rightarrow> real \<Rightarrow> stateA \<Rightarrow> stateA" where
  "speakTextResume txt dec now s =
     (case dec of
        None \<Rightarrow> s
      | Some d \<Rightarrow> if outputAudioCtxRef s then addLog Robot txt (enqueueA now d s) else s)"

subsection \<open>The microphone frame handler\<close>

text \<open>
  Conversion of a sample to \<^verbatim>\<open>Int16Array\<close>: truncation towards zero, then wrap-around
  modulo \<open>2^16\<close> into the signed range.
\<close>

definition toInt16 :: "real \<Rightarrow> int" where
  "toInt16 x =
     (let t = (if 0 \<le> x then \<lfloor>x\<rfloor> else \<lceil>x\<rceil>); m = t mod 65536
      in if 32768 \<le> m then m - 65536 else m)"

definition pcmBlob :: "real list \<Rightarrow> out_frame" where
  "pcmBlob inputData =
     RealtimeInput (PcmData (map (\<lambda>v. toInt16 (v * 32768)) inputData)) ''audio/pcm;rate=16000''"

text \<open>
  The local variables of \<^verbatim>\<open>onaudioprocess\<close> when it returns: \<open>l_inputData\<close> is the
  frame read with \<^verbatim>\<open>getChannelData\<close> and \<open>l_sum\<close> the sum of squares; \<open>None\<close> stands
  for a variable the run never reached.
\<close>

record frame_locals =
  l_inputData :: "real list option"
  l_sum :: "real option"

definition sumSquares :: "real list \<Rightarrow> real" where
  "sumSquares inputData = foldl (\<lambda>a v. a + v * v) 0 inputData"

definition onaudioprocessA :: "real list \<Rightarrow> stateA \<Rightarrow> stateA \<times> frame_locals" where
  "onaudioprocessA frame s =
     (if robotStateRef s = IDLE then (s, \<lparr>l_inputData = None, l_sum = None\<rparr>)
      else if \<not> isMutedRef s then
        (let sm = sumSquares frame;
             s1 = (if robotStateRef s = LISTENING
                   then s\<lparr>volume := sqrt (sm / real (length frame)) * 2.5\<rparr> else s)
         in (s1\<lparr>sent := sent s1 @ [pcmBlob frame]\<rparr>,
             \<lparr>l_inputData = Some frame, l_sum = Some sm\<rparr>))
      else (s\<lparr>volume := 0\<rparr>, \<lparr>l_inputData = Some frame, l_sum = None\<rparr>))"

subsection \<open>Opening, closing and starting a session\<close>

definition onopenA :: "stateA \<Rightarrow> stateA" where
  "onopenA s =
     (let s1 = addLog System ''NEURAL LINK ESTABLISHED.'' (s\<lparr>robotState := LISTENING\<rparr>);
          s2 = (if speakTextAsked GREETING_TEXT s1
                then s1\<lparr>ttsPending := ttsPending s1 + 1\<rparr> else s1)
      in s2\<lparr>sent := sent s2 @
           [RealtimeInput (PcmData (replicate 16000 0)) ''audio/pcm;rate=16000'']\<rparr>)"

definition digit :: "nat \<Rightarrow> char" where
  "digit d = ''0123456789'' ! d"

text \<open>The decimal digits of a number, as a template literal prints it.\<close>

fun string_of_nat :: "nat \<Rightarrow> string" where
  "string_of_nat n =
     (if n < 10 then [digit n] else string_of_nat (n div 10) @ [digit (n mod 10)])"

declare string_of_nat.simps [simp del]

definition oncloseA :: "nat \<Rightarrow> stateA \<Rightarrow> stateA" where
  "oncloseA code s =
     (if code \<noteq> 1000 \<and> isActiveRef s
      then handleErrorA
             \<lparr>err_name = ''Error'', err_message = ''Link severed: '' @ string_of_nat code\<rparr> s
      else s\<lparr>robotState := IDLE, isActive := False\<rparr>)"

text \<open>
  What the outside answers to one activation: whether the key is configured, the
  result of the permission request of \<^verbatim>\<open>handleInitialization\<close>, of the construction of
  the audio contexts, and of the part of \<^verbatim>\<open>startSession\<close> inside its \<^verbatim>\<open>try\<close> block
  (microphone capture and \<^verbatim>\<open>ai.live.connect\<close>) at each retry count (\<open>None\<close>: no
  error), and the values of \<^verbatim>\<open>Math.random()\<close>.
\<close>

record start_env =
  apiKey :: bool
  initResult :: "js_error option"
  audioCtxResult :: "js_error option"
  connectResult :: "nat \<Rightarrow> js_error option"
  random :: "nat \<Rightarrow> real"

definition handleInitializationA :: "start_env \<Rightarrow> stateA \<Rightarrow> stateA \<times> bool" where
  "handleInitializationA env s =
     (let s1 = s\<lparr>robotState := CONNECTING, errorDetail := None\<rparr>
      in case initResult env of
           None \<Rightarrow> (s1\<lparr>isInitialized := True\<rparr>, True)
         | Some err \<Rightarrow> (handleErrorA err s1, False))"

text \<open>
  One call of \<^verbatim>\<open>startSession(retryCount)\<close>. \<open>isInit\<close> is the value of
  \<^verbatim>\<open>isInitialized\<close> the closure holds. The second component is the argument of the
  retry the call schedules with \<^verbatim>\<open>setTimeout\<close>, if it schedules one; the delay is
  logged in \<open>timeouts\<close>.
\<close>

definition startSessionA :: "start_env \<Rightarrow> bool \<Rightarrow> nat \<Rightarrow> stateA \<Rightarrow> stateA \<times> nat option" where
  "startSessionA env isInit retryCount s =
     (if \<not> apiKey env
      then (handleErrorA \<lparr>err_name = ''Error'', err_message = ''API_KEY is missing.''\<rparr> s, None)
      else
        let (s0, success) = (if \<not> isInit then handleInitializationA env s else (s, True))
        in if \<not> success then (s0, None)
           else
             (case audioCtxResult env of
                Some e \<Rightarrow> (handleErrorA e s0, None)
              | None \<Rightarrow>
                  let s1 = s0\<lparr>outputAudioCtxRef := True, robotState := CONNECTING,
                             errorDetail := None, isActive := True, nextStartTimeRef := 0\<rparr>
                  in (case connectResult env retryCount of
                        None \<Rightarrow> (s1\<lparr>sessionRef := True\<rparr>, None)
                      | Some err \<Rightarrow>
                          if retryCount < 2
                          then (s1\<lparr>timeouts := timeouts s1 @ [(2000, retryCount + 1)]\<rparr>,
                                Some (retryCount + 1))
                          else (handleErrorA err s1, None))))"

text \<open>The chain of calls that the timers make, run to its end.\<close>

function runStartA :: "start_env \<Rightarrow> bool \<Rightarrow> nat \<Rightarrow> stateA \<Rightarrow> stateA" where
  "runStartA env isInit n s =
     (case startSessionA env isInit n s of
        (s', Some n') \<Rightarrow> runStartA env isInit n' s'
      | (s', None) \<Rightarrow> s')"
  by pat_completeness auto
termination
  by (relation "measure (\<lambda>(env, isInit, n, s). 2 - n)")
     (auto simp: startSessionA_def Let_def split: if_splits option.splits prod.splits)

declare runStartA.simps [simp del]

text \<open>The values the hooks of variant A start with.\<close>

definition initialA :: stateA where
  "initialA =
     \<lparr>robotState = IDLE, robotStateRef = IDLE, mood = ''neutral'', isActive = False,
      isCameraOn = False, history = [], volume = 0, isInitialized = False,
      errorDetail = None, nextStartTimeRef = 0, sourcesRef = [], sessionRef = False,
      started = [], stopped = [], sent = [], created = 0, timeouts = [],
      isActiveRef = False, isMuted = False, isMutedRef = False, isDeafened = False,
      isDeafenedRef = False, liveInput = [], liveOutput = [], outputAudioCtxRef = False,
      ttsPending = 0\<rparr>"

text \<open>
  The events of variant A and the step each makes: the handler, then the effects that
  mirror \<^verbatim>\<open>robotState\<close> and \<^verbatim>\<open>isActive\<close> into their refs. \<open>StartSession\<close> is the click
  on the wake button together with the retries its timers make. \<open>TtsResume\<close> is the
  answer to a greeting speech request; there is none when no request is pending.
\<close>

datatype eventA =
    Message server_message
  | Ended nat
  | AudioProcess "real list"
  | ToggleMute
  | ToggleDeafen
  | Open
  | Close nat
  | OnError js_error
  | TtsResume "real option" real
  | StopSession
  | StartSession start_env

fun handleA :: "eventA \<Rightarrow> stateA \<Rightarrow> stateA" where
  "handleA (Message m) s = final (onmessageA m s)"
| "handleA (Ended i) s = onended i s"
| "handleA (AudioProcess frame) s = fst (onaudioprocessA frame s)"
| "handleA ToggleMute s = toggleMute s"
| "handleA ToggleDeafen s = toggleDeafen s"
| "handleA Open s = onopenA s"
| "handleA (Close code) s = oncloseA code s"
| "handleA (OnError err) s = handleErrorA err s"
| "handleA (TtsResume dec now) s =
     (if ttsPending s = 0 then s
      else speakTextResume GREETING_TEXT dec now (s\<lparr>ttsPending := ttsPending s - 1\<rparr>))"
| "handleA StopSession s = stopSessionA s"
| "handleA (StartSession env) s = runStartA env (isInitialized s) 0 s"

definition stepA :: "eventA \<Rightarrow> stateA \<Rightarrow> stateA" where
  "stepA e s = effectsA (handleA e s)"

fun runA :: "eventA list \<Rightarrow> stateA \<Rightarrow> stateA" where
  "runA [] s = s"
| "runA (e # es) s = runA es (stepA e s)"

section \<open>Variant B\<close>

record FaceBox =
  ymin :: "real option"
  xmin :: "real option"
  ymax :: "real option"
  xmax :: "real option"
  face_idx :: nat

record stateB = engine +
  lastGesture :: "string option"
  detectedFaces :: "FaceBox list"
  currentInput :: string
  currentOutput :: string
  currentInputRef :: string
  currentOutputRef :: string
  isActiveClosure :: bool

definition MAX_RETRIES :: nat where
  "MAX_RETRIES = 3"

text \<open>An array read \<^verbatim>\<open>xs[i]\<close>, which is \<^verbatim>\<open>undefined\<close> out of range.\<close>

definition at_index :: "'a list \<Rightarrow> nat \<Rightarrow> 'a option" where
  "at_index xs i = (if i < length xs then Some (xs ! i) else None)"

fun faceBoxesFrom :: "nat \<Rightarrow> real list list \<Rightarrow> FaceBox list" where
  "faceBoxesFrom idx [] = []"
| "faceBoxesFrom idx (b # bs) =
     \<lparr>ymin = at_index b 0, xmin = at_index b 1, ymax = at_index b 2, xmax = at_index b 3,
      face_idx = idx\<rparr> # faceBoxesFrom (idx + 1) bs"

fun toolCallsB :: "function_call list \<Rightarrow> stateB \<Rightarrow> stateB" where
  "toolCallsB [] s = s"
| "toolCallsB (fc # fcs) s =
     (let s1 =
            (if fc_name fc = ''update_sparky_mood''
             then s\<lparr>mood := fc_mood fc, lastGesture := Some (fc_reason fc),
                    sent := sent s @ [ToolResponse (fc_id fc) (fc_name fc) ''Mood updated'']\<rparr>
             else s);
          s2 =
            (if fc_name fc = ''report_faces''
             then
               let faceBoxes = faceBoxesFrom 0 (fc_faces fc);
                   n = string_of_nat (length faceBoxes)
               in s1\<lparr>detectedFaces := faceBoxes, mood := ''curious'',
                     history := history s1 @
                       [\<lparr>etype = System,
                         etext = ''VISUAL LINK: DETECTED '' @ n @ '' HUMAN ENTIT'' @
                           (if 1 < length faceBoxes then ''IES'' else ''Y'') @ '' IN FRAME.''\<rparr>],
                     sent := sent s1 @
                       [ToolResponse (fc_id fc) (fc_name fc) (''Tracking '' @ n @ '' faces.'')]\<rparr>
             else s1)
      in toolCallsB fcs s2)"

text \<open>
  Scheduling in variant B: the cursor is first moved to the clock reading when nothing
  is in flight or when it lies in the past; the buffer is then decoded inside a
  \<^verbatim>\<open>try\<close> block, so a rejection drops this part only. As in variant A, the output
  audio context is taken to exist whenever a part with audio is handled.
\<close>

definition reanchorB :: "real \<Rightarrow> stateB \<Rightarrow> stateB" where
  "reanchorB currentTime s =
     (if sourcesRef s = [] then s\<lparr>nextStartTimeRef := currentTime\<rparr>
      else if nextStartTimeRef s < currentTime then s\<lparr>nextStartTimeRef := currentTime\<rparr>
      else s)"

definition scheduleB :: "real \<Rightarrow> stateB \<Rightarrow> stateB" where
  "scheduleB d s =
     (let src = \<lparr>sid = created s, startAt = nextStartTimeRef s, duration = d\<rparr>
      in s\<lparr>created := created s + 1, robotState := SPEAKING,
           started := started s @ [src],
           nextStartTimeRef := nextStartTimeRef s + d,
           sourcesRef := sourcesRef s @ [src]\<rparr>)"

definition enqueueB :: "real \<Rightarrow> real option \<Rightarrow> stateB \<Rightarrow> stateB" where
  "enqueueB currentTime dec s =
     (let s1 = reanchorB currentTime s
      in case dec of None \<Rightarrow> s1 | Some d \<Rightarrow> scheduleB d s1)"

fun partsB :: "part list \<Rightarrow> stateB \<Rightarrow> stateB" where
  "partsB [] s = s"
| "partsB (NoInlineData # ps) s = partsB ps s"
| "partsB (InlineData dec now # ps) s = partsB ps (enqueueB now dec s)"

definition interruptedB :: "stateB \<Rightarrow> stateB" where
  "interruptedB s = (stopSources s)\<lparr>nextStartTimeRef := 0, robotState := LISTENING, volume := 0\<rparr>"

definition transcriptionB :: "server_message \<Rightarrow> stateB \<Rightarrow> stateB" where
  "transcriptionB m s =
     (let s1 = (case inputTranscription m of
                  Some t \<Rightarrow> s\<lparr>currentInput := currentInput s @ t\<rparr> | None \<Rightarrow> s)
      in case outputTranscription m of
           Some t \<Rightarrow> s1\<lparr>currentOutput := currentOutput s1 @ t\<rparr> | None \<Rightarrow> s1)"

text \<open>The flush reads the ref cells, the copies the last effect made of the accumulators.\<close>

definition turnCompleteB :: "server_message \<Rightarrow> stateB \<Rightarrow> stateB" where
  "turnCompleteB m s =
     (if turnComplete m
      then
        let uText = currentInputRef s; rText = currentOutputRef s;
            s1 = (if uText \<noteq> [] \<or> rText \<noteq> []
                  then s\<lparr>history := history s @
                         (if uText \<noteq> [] then [\<lparr>etype = User, etext = uText\<rparr>] else []) @
                         (if rText \<noteq> [] then [\<lparr>etype = Robot, etext = rText\<rparr>] else [])\<rparr>
                  else s)
        in s1\<lparr>currentInput := [], currentOutput := []\<rparr>
      else s)"

definition toolsB :: "server_message \<Rightarrow> stateB \<Rightarrow> stateB" where
  "toolsB m s = (case toolCall m of None \<Rightarrow> s | Some fcs \<Rightarrow> toolCallsB fcs s)"

definition audioB :: "server_message \<Rightarrow> stateB \<Rightarrow> stateB" where
  "audioB m s = (case modelTurn m of None \<Rightarrow> s | Some ps \<Rightarrow> partsB ps s)"

text \<open>The handler in its order: tool calls, the model turn, the interruption flag,
  transcriptions, turn completion.\<close>

definition onmessageB :: "server_message \<Rightarrow> stateB \<Rightarrow> stateB" where
  "onmessageB m s =
     (let s2 = audioB m (toolsB m s);
          s3 = (if interrupted m then interruptedB s2 else s2)
      in turnCompleteB m (transcriptionB m s3))"

definition effectsB :: "stateB \<Rightarrow> stateB" where
  "effectsB s =
     s\<lparr>robotStateRef := robotState s, currentInputRef := currentInput s,
       currentOutputRef := currentOutput s\<rparr>"

definition onaudioprocessB :: "real list \<Rightarrow> stateB \<Rightarrow> stateB" where
  "onaudioprocessB frame s =
     (if robotStateRef s = IDLE then s
      else
        let rms = sqrt (sumSquares frame / real (length frame));
            s1 = (if robotStateRef s = LISTENING then s\<lparr>volume := rms * 2.5\<rparr> else s)
        in s1\<lparr>sent := sent s1 @ [pcmBlob frame]\<rparr>)"

definition stopSessionB :: "stateB \<Rightarrow> stateB" where
  "stopSessionB s =
     (stopSources s)\<lparr>sessionRef := False, currentInputRef := [], currentOutputRef := [],
        nextStartTimeRef := 0, isActive := False, isCameraOn := False, robotState := IDLE,
        mood := ''neutral'', lastGesture := None, detectedFaces := [], volume := 0,
        currentInput := [], currentOutput := []\<rparr>"

definition or_else :: "string \<Rightarrow> string \<Rightarrow> string" where
  "or_else a b = (if a = [] then b else a)"

definition onerrorB :: "js_error \<Rightarrow> stateB \<Rightarrow> stateB" where
  "onerrorB err s =
     s\<lparr>robotState := ERROR,
       errorDetail := Some \<lparr>message = ''Neural link unstable: '' @
           or_else (err_message err) ''Signal lost'' @
           ''. Ensure your API key is correctly configured.'', severity = Warning\<rparr>\<rparr>"

text \<open>
  \<^verbatim>\<open>onclose\<close> reads \<^verbatim>\<open>isActive\<close> itself, not a ref. The callbacks of a channel are
  made inside the call of \<^verbatim>\<open>startSession\<close> that opens it, so what \<^verbatim>\<open>onclose\<close> reads is
  the value that call captured: the value of \<^verbatim>\<open>isActive\<close> in the render in which the
  button was clicked. The field \<open>isActiveClosure\<close> holds it (see \<open>handleB\<close>); no setter
  reaches it.
\<close>

definition oncloseB :: "nat \<Rightarrow> stateB \<Rightarrow> stateB" where
  "oncloseB code s =
     (if code \<noteq> 1000 \<and> isActiveClosure s
      then s\<lparr>robotState := ERROR,
             errorDetail := Some \<lparr>message = ''Activation aborted (Code: '' @ string_of_nat code @
               ''). This often means the API key is missing or the project billing is inactive.'',
               severity = Critical\<rparr>\<rparr>
      else s\<lparr>robotState := IDLE, isActive := False\<rparr>)"

definition handleInitializationB :: "start_env \<Rightarrow> stateB \<Rightarrow> stateB" where
  "handleInitializationB env s =
     (let s1 = s\<lparr>robotState := CONNECTING, errorDetail := None\<rparr>
      in case initResult env of
           None \<Rightarrow> s1\<lparr>isInitialized := True, robotState := IDLE\<rparr>
         | Some err \<Rightarrow>
             let msg =
               (if err_name err = ''NotAllowedError''
                then ''Sensory access denied. Mic/Camera permissions are required.''
                else if err_name err = ''NotFoundError''
                then ''No visual or auditory hardware detected.''
                else ''System error: '' @ or_else (err_message err) ''Unknown activation failure'')
             in s1\<lparr>errorDetail := Some \<lparr>message = msg, severity = Critical\<rparr>,
                   robotState := ERROR\<rparr>)"

definition startSessionB :: "start_env \<Rightarrow> bool \<Rightarrow> nat \<Rightarrow> stateB \<Rightarrow> stateB \<times> nat option" where
  "startSessionB env isInit retryCount s =
     (if \<not> apiKey env
      then (s\<lparr>robotState := ERROR,
              errorDetail := Some \<lparr>message = ''Neural link failed: API_KEY is missing from environment. If deployed on Netlify, please add API_KEY to your site settings.'',
                severity = Critical\<rparr>\<rparr>, None)
      else if \<not> isInit then (handleInitializationB env s, None)
      else
        let s1 = s\<lparr>robotState := CONNECTING, errorDetail := None, isActive := True,
                   nextStartTimeRef := 0\<rparr>
        in (case connectResult env retryCount of
              None \<Rightarrow> (s1\<lparr>sessionRef := True\<rparr>, None)
            | Some err \<Rightarrow>
                if retryCount < MAX_RETRIES
                then
                  let delay = 2 ^ retryCount * 1000 + random env retryCount * 500
                  in (s1\<lparr>timeouts := timeouts s1 @ [(delay, retryCount + 1)]\<rparr>,
                      Some (retryCount + 1))
                else
                  (s1\<lparr>robotState := ERROR,
                      errorDetail := Some \<lparr>message = ''Neural handshake failed: '' @
                        or_else (err_message err) ''The service is unavailable'' @
                        ''. Check environment variables for API_KEY.'', severity = Critical\<rparr>\<rparr>,
                   None)))"

function runStartB :: "start_env \<Rightarrow> bool \<Rightarrow> nat \<Rightarrow> stateB \<Rightarrow> stateB" where
  "runStartB env isInit n s =
     (case startSessionB env isInit n s of
        (s', Some n') \<Rightarrow> runStartB env isInit n' s'
      | (s', None) \<Rightarrow> s')"
  by pat_completeness auto
termination
  by (relation "measure (\<lambda>(env, isInit, n, s). MAX_RETRIES - n)")
     (auto simp: startSessionB_def Let_def split: if_splits option.splits prod.splits)

declare runStartB.simps [simp del]

definition initialB :: stateB where
  "initialB =
     \<lparr>robotState = IDLE, robotStateRef = IDLE, mood = ''neutral'', isActive = False,
      isCameraOn = False, history = [], volume = 0, isInitialized = False,
      errorDetail = None, nextStartTimeRef = 0, sourcesRef = [], sessionRef = False,
      started = [], stopped = [], sent = [], created = 0, timeouts = [],
      lastGesture = None, detectedFaces = [], currentInput = [], currentOutput = [],
      currentInputRef = [], currentOutputRef = [], isActiveClosure = False\<rparr>"

definition onopenB :: "stateB \<Rightarrow> stateB" where
  "onopenB s = s\<lparr>robotState := LISTENING\<rparr>"

definition handleSendMessage :: "string \<Rightarrow> stateB \<Rightarrow> stateB" where
  "handleSendMessage txt s =
     (if sessionRef s
      then s\<lparr>sent := sent s @ [TextTurn txt],
             history := history s @ [\<lparr>etype = User, etext = txt\<rparr>]\<rparr>
      else s)"

text \<open>
  The events of variant B and the step each makes: the handler, then the effects that
  mirror \<^verbatim>\<open>robotState\<close> and the accumulators into their refs. \<open>StartSessionB\<close> is a
  click that calls \<^verbatim>\<open>startSession()\<close> (the wake button, shown while the session is
  inactive, or the re-sync button of the error panel) together with the retries its
  timers make; all of them run in the closure of the click, whose value of
  \<^verbatim>\<open>isActive\<close> is recorded first. \<open>CloseB\<close> is the closure of the channel that the last
  such call opened.
\<close>

datatype eventB =
    MessageB server_message
  | EndedB nat
  | AudioProcessB "real list"
  | OpenB
  | CloseB nat
  | OnErrorB js_error
  | SendMessageB string
  | StopSessionB
  | StartSessionB start_env

fun handleB :: "eventB \<Rightarrow> stateB \<Rightarrow> stateB" where
  "handleB (MessageB m) s = onmessageB m s"
| "handleB (EndedB i) s = onended i s"
| "handleB (AudioProcessB frame) s = onaudioprocessB frame s"
| "handleB OpenB s = onopenB s"
| "handleB (CloseB code) s = oncloseB code s"
| "handleB (OnErrorB err) s = onerrorB err s"
| "handleB (SendMessageB txt) s = handleSendMessage txt s"
| "handleB StopSessionB s = stopSessionB s"
| "handleB (StartSessionB env) s =
     runStartB env (isInitialized s) 0 (s\<lparr>isActiveClosure := isActive s\<rparr>)"

definition stepB :: "eventB \<Rightarrow> stateB \<Rightarrow> stateB" where
  "stepB e s = effectsB (handleB e s)"

section \<open>Runs and sample states\<close>

text \<open>A part decodes when it carries no audio or its buffer can be decoded.\<close>

fun partDecodes :: "part \<Rightarrow> bool" where
  "partDecodes (InlineData None now) = False"
| "partDecodes p = True"

definition decodes :: "server_message \<Rightarrow> bool" where
  "decodes m = (case modelTurn m of None \<Rightarrow> True | Some ps \<Rightarrow> list_all partDecodes ps)"

text \<open>
  Inbound messages handled one after the other. A rejected handler does not stop the
  stream: the next message is handled in the state the rejected one left.
\<close>

fun messagesA :: "server_message list \<Rightarrow> stateA \<Rightarrow> stateA" where
  "messagesA [] s = s"
| "messagesA (m # ms) s = messagesA ms (final (onmessageA m s))"

text \<open>A message with no content, from which the sample messages are made.\<close>

definition silentMessage :: server_message where
  "silentMessage =
     \<lparr>outputTranscription = None, inputTranscription = None, turnComplete = False,
      toolCall = None, modelTurn = None, interrupted = False\<rparr>"

text \<open>
  An open session that listens, in each variant. For variant A the log entry and the
  frame of the opening are left out of the sample.
\<close>

definition listeningA :: stateA where
  "listeningA =
     initialA\<lparr>robotState := LISTENING, robotStateRef := LISTENING, isActive := True,
       isActiveRef := True, isInitialized := True, sessionRef := True,
       outputAudioCtxRef := True\<rparr>"

definition listeningB :: stateB where
  "listeningB =
     initialB\<lparr>robotState := LISTENING, robotStateRef := LISTENING, isActive := True,
       isInitialized := True, sessionRef := True\<rparr>"

text \<open>
  Variant B after a re-sync: the stream reported an error, which leaves the session
  active, the re-sync button was clicked and the new channel opened. The call of
  \<^verbatim>\<open>startSession\<close> behind this channel captured \<^verbatim>\<open>isActive = true\<close>; the one behind
  \<open>listeningB\<close>, made by the wake button, captured \<^verbatim>\<open>false\<close>.
\<close>

definition resyncedB :: stateB where
  "resyncedB = listeningB\<lparr>isActiveClosure := True\<rparr>"

definition streamError :: js_error where
  "streamError = \<lparr>err_name = ''Error'', err_message = ''Signal lost''\<rparr>"

text \<open>The events of variant B that call \<^verbatim>\<open>startSession\<close> from a click.\<close>

fun startsB :: "eventB \<Rightarrow> bool" where
  "startsB (StartSessionB env) = True"
| "startsB e = False"

text \<open>
  A model turn of two buffers, of 2 and 1 seconds, both handled at clock reading 5, and
  the states in which they play.
\<close>

definition twoBuffers :: server_message where
  "twoBuffers = silentMessage\<lparr>modelTurn := Some [InlineData (Some 2) 5, InlineData (Some 1) 5]\<rparr>"

definition playingA :: stateA where
  "playingA = final (onmessageA twoBuffers listeningA)"

definition playingB :: stateB where
  "playingB = onmessageB twoBuffers listeningB"

definition unknownCall :: function_call where
  "unknownCall =
     \<lparr>fc_id = ''call-1'', fc_name = ''play_music'', fc_mood = [], fc_reason = [],
      fc_faces = []\<rparr>"

definition moodCallA :: function_call where
  "moodCallA =
     \<lparr>fc_id = ''call-2'', fc_name = ''update_spark_mood'', fc_mood = ''happy'',
      fc_reason = ''a smile'', fc_faces = []\<rparr>"

definition moodCallB :: function_call where
  "moodCallB =
     \<lparr>fc_id = ''call-3'', fc_name = ''update_sparky_mood'', fc_mood = ''happy'',
      fc_reason = ''a smile'', fc_faces = []\<rparr>"

definition mutedA :: stateA where
  "mutedA = toggleMute listeningA"

text \<open>The events that leave the deafened flag alone: all but the deafen button.\<close>

fun keepsDeafened :: "eventA \<Rightarrow> bool" where
  "keepsDeafened ToggleDeafen = False"
| "keepsDeafened e = True"

text \<open>The answer to a greeting speech request, the one event that is not of the session.\<close>

fun speechAnswer :: "eventA \<Rightarrow> bool" where
  "speechAnswer (TtsResume dec now) = True"
| "speechAnswer e = False"

text \<open>
  A step is quiet when it starts no source, leaves the deafened flag and the count of
  pending speech requests as they are and keeps an empty in-flight set empty.
\<close>

definition quiet :: "stateA \<Rightarrow> stateA \<Rightarrow> bool" where
  "quiet s s' =
     (started s' = started s \<and> isDeafenedRef s' = isDeafenedRef s \<and>
      isDeafened s' = isDeafened s \<and> ttsPending s' = ttsPending s \<and>
      (sourcesRef s = [] \<longrightarrow> sourcesRef s' = []))"

text \<open>
  An outside that grants everything, one where every connection attempt fails with the
  same plain error, and the states of an authorised component before its session is
  started.
\<close>

definition grantedEnv :: start_env where
  "grantedEnv =
     \<lparr>apiKey = True, initResult = None, audioCtxResult = None,
      connectResult = (\<lambda>n. None), random = (\<lambda>n. 0)\<rparr>"

definition failingEnv :: start_env where
  "failingEnv =
     \<lparr>apiKey = True, initResult = None, audioCtxResult = None,
      connectResult = (\<lambda>n. Some \<lparr>err_name = ''Error'', err_message = ''WebSocket closed''\<rparr>),
      random = (\<lambda>n. 1 / 2)\<rparr>"

definition readyA :: stateA where
  "readyA = initialA\<lparr>isInitialized := True\<rparr>"

definition readyB :: stateB where
  "readyB = initialB\<lparr>isInitialized := True\<rparr>"

text \<open>
  The transcript events of the spec, each as the message that carries it alone, and
  the accumulation the spec describes: a partial transcript is appended to the
  accumulator of its side; a completed turn appends one log entry for each non-empty
  accumulator and empties both. \<open>turn_spec\<close> and \<open>turns_spec\<close> follow the words of the
  spec, not the code.
\<close>

datatype side = InputSide | OutputSide

datatype transcript_event = PartialTranscript side string | TurnComplete

fun messageOf :: "transcript_event \<Rightarrow> server_message" where
  "messageOf (PartialTranscript InputSide txt) = silentMessage\<lparr>inputTranscription := Some txt\<rparr>"
| "messageOf (PartialTranscript OutputSide txt) = silentMessage\<lparr>outputTranscription := Some txt\<rparr>"
| "messageOf TurnComplete = silentMessage\<lparr>turnComplete := True\<rparr>"

fun turn_spec ::
  "transcript_event \<Rightarrow> string \<times> string \<times> TranscriptionEntry list \<Rightarrow>
   string \<times> string \<times> TranscriptionEntry list" where
  "turn_spec (PartialTranscript InputSide txt) (i, out, hist) = (i @ txt, out, hist)"
| "turn_spec (PartialTranscript OutputSide txt) (i, out, hist) = (i, out @ txt, hist)"
| "turn_spec TurnComplete (i, out, hist) =
     ([], [],
      hist @ (if i = [] then [] else [\<lparr>etype = User, etext = i\<rparr>]) @
            (if out = [] then [] else [\<lparr>etype = Robot, etext = out\<rparr>]))"

fun turns_spec ::
  "transcript_event list \<Rightarrow> string \<times> string \<times> TranscriptionEntry list \<Rightarrow>
   string \<times> string \<times> TranscriptionEntry list" where
  "turns_spec [] acc = acc"
| "turns_spec (e # es) acc = turns_spec es (turn_spec e acc)"

text \<open>
  Inbound messages of variant B handled one after the other, with a render between
  them: the effects copy the accumulators into their ref cells after each message.
\<close>

fun messagesB :: "server_message list \<Rightarrow> stateB \<Rightarrow> stateB" where
  "messagesB [] s = s"
| "messagesB (m # ms) s = messagesB ms (effectsB (onmessageB m s))"

text \<open>The ref cells of the accumulators hold what the accumulators hold.\<close>

definition synced :: "stateB \<Rightarrow> bool" where
  "synced t = (currentInputRef t = currentInput t \<and> currentOutputRef t = currentOutput t)"

subsection \<open>Timing of the events of variant B\<close>

text \<open>
  Variant B moves the cursor to the clock reading whenever the in-flight set is empty,
  so what it schedules depends on when sources end. The assumptions on the outside
  are those of the audio clock: its readings never decrease while the output context
  lives; a source ends no earlier than its start time plus its duration; durations are
  not negative. \<open>okB c s t e\<close> says that event \<open>e\<close>, handled at clock reading \<open>t\<close> in state
  \<open>s\<close>, respects them when \<open>c\<close> is the last reading before; \<open>clockAfter t e\<close> is the last
  reading once \<open>e\<close> is handled. A shutdown closes the output context, and the next one
  counts from zero again.
\<close>

fun partsTimed :: "real \<Rightarrow> part list \<Rightarrow> bool" where
  "partsTimed c [] = True"
| "partsTimed c (NoInlineData # ps) = partsTimed c ps"
| "partsTimed c (InlineData dec now # ps) =
     (c \<le> now \<and> (case dec of None \<Rightarrow> True | Some d \<Rightarrow> 0 \<le> d) \<and> partsTimed now ps)"

fun lastClock :: "real \<Rightarrow> part list \<Rightarrow> real" where
  "lastClock c [] = c"
| "lastClock c (NoInlineData # ps) = lastClock c ps"
| "lastClock c (InlineData dec now # ps) = lastClock now ps"

fun okB :: "real \<Rightarrow> stateB \<Rightarrow> real \<Rightarrow> eventB \<Rightarrow> bool" where
  "okB c s t (MessageB m) =
     (c \<le> t \<and> (case modelTurn m of None \<Rightarrow> True | Some ps \<Rightarrow> partsTimed t ps))"
| "okB c s t (EndedB i) =
     (c \<le> t \<and> list_all (\<lambda>x. sid x \<noteq> i \<or> startAt x + duration x \<le> t) (sourcesRef s))"
| "okB c s t e = (c \<le> t)"

fun clockAfter :: "real \<Rightarrow> eventB \<Rightarrow> real" where
  "clockAfter t (MessageB m) = (case modelTurn m of None \<Rightarrow> t | Some ps \<Rightarrow> lastClock t ps)"
| "clockAfter t StopSessionB = 0"
| "clockAfter t e = t"

text \<open>
  \<open>reachB c s\<close>: the component has reached state \<open>s\<close> from its initial state by events
  that respect the clock, and \<open>c\<close> is the last reading.
\<close>

inductive reachB :: "real \<Rightarrow> stateB \<Rightarrow> bool" where
  initial: "reachB 0 initialB"
| step: "reachB c s \<Longrightarrow> okB c s t e \<Longrightarrow> reachB (clockAfter t e) (stepB e s)"

text \<open>
  What holds of the cursor in every such state: it lies in the past, or it is the end
  of a source still in flight.
\<close>

definition cursorInv :: "real \<Rightarrow> stateB \<Rightarrow> bool" where
  "cursorInv c s =
     (0 \<le> c \<and>
      (nextStartTimeRef s \<le> c \<or>
       \<not> list_all (\<lambda>x. startAt x + duration x \<noteq> nextStartTimeRef s) (sourcesRef s)))"

subsection \<open>Sequences of fragments\<close>

text \<open>
  A fragment is a pair of the clock reading at which it is enqueued and the duration
  of its buffer. \<open>enqueueAllA\<close> enqueues fragments one after the other.
\<close>

fun enqueueAllA :: "(real \<times> real) list \<Rightarrow> stateA \<Rightarrow> stateA" where
  "enqueueAllA [] s = s"
| "enqueueAllA ((now, d) # fs) s = enqueueAllA fs (enqueueA now d s)"

text \<open>
  The schedule in the words of the spec: fragment \<open>i\<close> starts at the later of the end of
  fragment \<open>i - 1\<close> (\<open>prev\<close>, for the first one the cursor) and the clock reading at its
  enqueue.
\<close>

fun schedule_spec :: "real \<Rightarrow> (real \<times> real) list \<Rightarrow> (real \<times> real) list" where
  "schedule_spec prev [] = []"
| "schedule_spec prev ((now, d) # fs) =
     (max prev now, d) # schedule_spec (max prev now + d) fs"

text \<open>The sources started between two states, as pairs of start time and duration.\<close>

definition startedSince :: "'a engine_scheme \<Rightarrow> 'a engine_scheme \<Rightarrow> (real \<times> real) list" where
  "startedSince s s' = map (\<lambda>x. (startAt x, duration x)) (drop (length (started s)) (started s'))"

text \<open>The events of variant B that create a session, interrupt or tear down.\<close>

fun resetsB :: "eventB \<Rightarrow> bool" where
  "resetsB (StartSessionB env) = True"
| "resetsB StopSessionB = True"
| "resetsB (MessageB m) = interrupted m"
| "resetsB e = False"

text \<open>
  The recurrence of the spec, for the fragments \<open>fs\<close> and the pairs \<open>S\<close> of start time and
  duration they were scheduled with: \<open>start[i] = max (start[i-1] + d[i-1]) now[i]\<close>, with
  the cursor in the place of the end of the fragment before the first.
\<close>

definition obeysRecurrence :: "real \<Rightarrow> (real \<times> real) list \<Rightarrow> (real \<times> real) list \<Rightarrow> bool" where
  "obeysRecurrence cursor fs S =
     (length S = length fs \<and>
      (\<forall>i<length fs.
         fst (S ! i) =
           max (if i = 0 then cursor else fst (S ! (i - 1)) + snd (fs ! (i - 1))) (fst (fs ! i)) \<and>
         snd (S ! i) = snd (fs ! i)))"

text \<open>
  No gap: a fragment enqueued no later than the end of the one before starts exactly at
  that end.
\<close>

definition gapless :: "(real \<times> real) list \<Rightarrow> (real \<times> real) list \<Rightarrow> bool" where
  "gapless fs S =
     (\<forall>i<length fs. 0 < i \<and> fst (fs ! i) \<le> fst (S ! (i - 1)) + snd (S ! (i - 1)) \<longrightarrow>
        fst (S ! i) = fst (S ! (i - 1)) + snd (S ! (i - 1)))"

text \<open>No decoded buffer in the event has a negative duration.\<close>

fun partDurationOk :: "part \<Rightarrow> bool" where
  "partDurationOk (InlineData (Some d) now) = (0 \<le> d)"
| "partDurationOk p = True"

fun durationsOk :: "eventA \<Rightarrow> bool" where
  "durationsOk (Message m) =
     (case modelTurn m of None \<Rightarrow> True | Some ps \<Rightarrow> list_all partDurationOk ps)"
| "durationsOk (TtsResume dec now) = (case dec of None \<Rightarrow> True | Some d \<Rightarrow> 0 \<le> d)"
| "durationsOk e = True"

text \<open>
  The events of variant A that create a session, interrupt or tear down. An error
  tears the session down when \<^verbatim>\<open>handleError\<close> classifies it critical.
\<close>

fun resetsA :: "eventA \<Rightarrow> bool" where
  "resetsA (StartSession env) = True"
| "resetsA StopSession = True"
| "resetsA (Message m) = interrupted m"
| "resetsA (OnError err) = (snd (classifyA err) = Critical)"
| "resetsA e = False"

subsection \<open>Messages in the terms of the spec\<close>

text \<open>
  The transcript events that a message carries, in the order in which the spec lists
  them (partial transcripts, then the completion of the turn), and the texts of its
  two transcripts, empty when it carries none.
\<close>

definition eventsOf :: "server_message \<Rightarrow> transcript_event list" where
  "eventsOf m =
     (case inputTranscription m of None \<Rightarrow> [] | Some txt \<Rightarrow> [PartialTranscript InputSide txt]) @
     (case outputTranscription m of None \<Rightarrow> [] | Some txt \<Rightarrow> [PartialTranscript OutputSide txt]) @
     (if turnComplete m then [TurnComplete] else [])"

definition heard :: "server_message \<Rightarrow> string" where
  "heard m = (case inputTranscription m of None \<Rightarrow> [] | Some txt \<Rightarrow> txt)"

definition said :: "server_message \<Rightarrow> string" where
  "said m = (case outputTranscription m of None \<Rightarrow> [] | Some txt \<Rightarrow> txt)"

text \<open>The log entries of a completed turn: one for each side that is not empty, the user first.\<close>

definition flushed :: "string \<Rightarrow> string \<Rightarrow> TranscriptionEntry list" where
  "flushed i out =
     (if i = [] then [] else [\<lparr>etype = User, etext = i\<rparr>]) @
     (if out = [] then [] else [\<lparr>etype = Robot, etext = out\<rparr>])"

text \<open>The entries of the log that are not system notices.\<close>

definition dialogue :: "TranscriptionEntry list \<Rightarrow> TranscriptionEntry list" where
  "dialogue hist = filter (\<lambda>e. etype e \<noteq> System) hist"

text \<open>
  The messages on which the handlers follow the spec's accumulation to the letter. In
  variant A: at most one of the two transcripts, and no interruption short of a
  completed turn. In variant B: no transcript in the message that completes the turn.
\<close>

definition plainA :: "server_message \<Rightarrow> bool" where
  "plainA m =
     ((inputTranscription m = None \<or> outputTranscription m = None) \<and>
      (turnComplete m \<or> \<not> interrupted m))"

definition plainB :: "server_message \<Rightarrow> bool" where
  "plainB m =
     (\<not> turnComplete m \<or> (inputTranscription m = None \<and> outputTranscription m = None))"

text \<open>
  The fragments of a model turn: for each part whose audio decodes, the clock reading
  at which it is enqueued and the duration of its buffer.
\<close>

fun fragmentsOf :: "part list \<Rightarrow> (real \<times> real) list" where
  "fragmentsOf [] = []"
| "fragmentsOf (InlineData (Some d) now # ps) = (now, d) # fragmentsOf ps"
| "fragmentsOf (p # ps) = fragmentsOf ps"

definition fragments :: "server_message \<Rightarrow> (real \<times> real) list" where
  "fragments m = (case modelTurn m of None \<Rightarrow> [] | Some ps \<Rightarrow> fragmentsOf ps)"

text \<open>
  Where the cursor is left when each fragment in turn moves it to the later of the
  cursor and the clock, plus the duration.
\<close>

fun cursorAfter :: "real \<Rightarrow> (real \<times> real) list \<Rightarrow> real" where
  "cursorAfter c [] = c"
| "cursorAfter c ((now, d) # fs) = cursorAfter (max c now + d) fs"

text \<open>
  Sample model turns: one buffer of 2 seconds at clock reading 5; the two buffers
  followed, after a part without audio, by a third of 1 second at clock reading 9; and
  a turn whose first part cannot be decoded.
\<close>

definition oneBuffer :: server_message where
  "oneBuffer = silentMessage\<lparr>modelTurn := Some [InlineData (Some 2) 5]\<rparr>"

definition threeBuffers :: server_message where
  "threeBuffers =
     silentMessage\<lparr>modelTurn :=
       Some [InlineData (Some 2) 5, InlineData (Some 1) 5, NoInlineData, InlineData (Some 1) 9]\<rparr>"

definition brokenTurn :: server_message where
  "brokenTurn = silentMessage\<lparr>modelTurn := Some [InlineData None 5, InlineData (Some 2) 5]\<rparr>"

section \<open>Basic facts about the handlers\<close>

lemma addLog_playback [simp]:
  "sourcesRef (addLog t x s) = sourcesRef s"
  "started (addLog t x s) = started s"
  "stopped (addLog t x s) = stopped s"
  "nextStartTimeRef (addLog t x s) = nextStartTimeRef s"
  "sent (addLog t x s) = sent s"
  "isDeafenedRef (addLog t x s) = isDeafenedRef s"
  "robotState (addLog t x s) = robotState s"
  "volume (addLog t x s) = volume s"
  "mood (addLog t x s) = mood s"
  by (simp_all add: addLog_def)

lemma enqueueA_fields [simp]:
  "sourcesRef (enqueueA now d s) =
     sourcesRef s @ [\<lparr>sid = created s, startAt = max (nextStartTimeRef s) now, duration = d\<rparr>]"
  "started (enqueueA now d s) =
     started s @ [\<lparr>sid = created s, startAt = max (nextStartTimeRef s) now, duration = d\<rparr>]"
  "stopped (enqueueA now d s) = stopped s"
  "nextStartTimeRef (enqueueA now d s) = max (nextStartTimeRef s) now + d"
  "robotState (enqueueA now d s) = SPEAKING"
  "sent (enqueueA now d s) = sent s"
  "created (enqueueA now d s) = created s + 1"
  by (simp_all add: enqueueA_def Let_def)

lemma partsA_sent: "sent (final (partsA ps s)) = sent s"
  by (induction ps s rule: partsA.induct) simp_all

lemma partsA_Completed:
  "list_all partDecodes ps \<Longrightarrow>
   \<exists>s' new. partsA ps s = Completed s' \<and> sourcesRef s' = sourcesRef s @ new \<and>
     started s' = started s @ new \<and> stopped s' = stopped s"
proof (induction ps s rule: partsA.induct)
  case (4 d now ps s)
  then obtain s' new where
    "partsA ps (enqueueA now d s) = Completed s'"
    "sourcesRef s' = sourcesRef (enqueueA now d s) @ new"
    "started s' = started (enqueueA now d s) @ new"
    "stopped s' = stopped (enqueueA now d s)"
    by auto
  then show ?case by simp
qed simp_all

lemma audioA_Completed:
  "decodes m \<Longrightarrow>
   \<exists>s' new. audioA m s = Completed s' \<and> sourcesRef s' = sourcesRef s @ new \<and>
     started s' = started s @ new \<and> stopped s' = stopped s"
  using partsA_Completed by (cases "modelTurn m") (auto simp: audioA_def decodes_def)

lemma toolCallsA_playback [simp]:
  "sourcesRef (toolCallsA fcs s) = sourcesRef s"
  "started (toolCallsA fcs s) = started s"
  "stopped (toolCallsA fcs s) = stopped s"
  "nextStartTimeRef (toolCallsA fcs s) = nextStartTimeRef s"
  by (induction fcs arbitrary: s) simp_all

lemma toolCallsA_sent:
  "sent (toolCallsA fcs s) =
     sent s @ map (\<lambda>fc. ToolResponse (fc_id fc) (fc_name fc) ''Mood synced.'')
                (filter (\<lambda>fc. fc_name fc = ''update_spark_mood'') fcs)"
  by (induction fcs arbitrary: s) simp_all

lemma toolsA_playback [simp]:
  "sourcesRef (toolsA m s) = sourcesRef s"
  "started (toolsA m s) = started s"
  "stopped (toolsA m s) = stopped s"
  "nextStartTimeRef (toolsA m s) = nextStartTimeRef s"
  by (simp_all add: toolsA_def split: option.splits)

lemma interruptedA_fields [simp]:
  "sourcesRef (interruptedA s) = []"
  "nextStartTimeRef (interruptedA s) = 0"
  "robotState (interruptedA s) = LISTENING"
  "volume (interruptedA s) = 0"
  "stopped (interruptedA s) = stopped s @ map sid (sourcesRef s)"
  "started (interruptedA s) = started s"
  "sent (interruptedA s) = sent s"
  by (simp_all add: interruptedA_def stopSources_def)

lemma transcriptsA_playback [simp]:
  "sourcesRef (turnCompleteA m (transcriptionA m s)) = sourcesRef s"
  "started (turnCompleteA m (transcriptionA m s)) = started s"
  "stopped (turnCompleteA m (transcriptionA m s)) = stopped s"
  "sent (turnCompleteA m (transcriptionA m s)) = sent s"
  "nextStartTimeRef (turnCompleteA m (transcriptionA m s)) = nextStartTimeRef s"
  by (simp_all add: turnCompleteA_def transcriptionA_def split: option.splits)

lemma length_faceBoxesFrom [simp]: "length (faceBoxesFrom i bs) = length bs"
  by (induction bs arbitrary: i) simp_all

lemma toolCallsB_playback [simp]:
  "sourcesRef (toolCallsB fcs s) = sourcesRef s"
  "started (toolCallsB fcs s) = started s"
  "stopped (toolCallsB fcs s) = stopped s"
  "nextStartTimeRef (toolCallsB fcs s) = nextStartTimeRef s"
  by (induction fcs arbitrary: s) (simp_all add: Let_def)

lemma toolCallsB_sent:
  "sent (toolCallsB fcs s) =
     sent s @ map (\<lambda>fc. ToolResponse (fc_id fc) (fc_name fc)
                     (if fc_name fc = ''update_sparky_mood'' then ''Mood updated''
                      else ''Tracking '' @ string_of_nat (length (fc_faces fc)) @ '' faces.''))
                (filter (\<lambda>fc. fc_name fc = ''update_sparky_mood'' \<or> fc_name fc = ''report_faces'')
                   fcs)"
  by (induction fcs arbitrary: s) (simp_all add: Let_def)

lemma toolsB_playback [simp]:
  "sourcesRef (toolsB m s) = sourcesRef s"
  "started (toolsB m s) = started s"
  "stopped (toolsB m s) = stopped s"
  "nextStartTimeRef (toolsB m s) = nextStartTimeRef s"
  by (simp_all add: toolsB_def split: option.splits)

lemma enqueueB_sent [simp]: "sent (enqueueB now dec s) = sent s"
  by (simp add: enqueueB_def reanchorB_def scheduleB_def Let_def split: option.splits)

lemma enqueueB_stopped [simp]: "stopped (enqueueB now dec s) = stopped s"
  by (simp add: enqueueB_def reanchorB_def scheduleB_def Let_def split: option.splits)

lemma enqueueB_grows:
  "\<exists>new. sourcesRef (enqueueB now dec s) = sourcesRef s @ new \<and>
     started (enqueueB now dec s) = started s @ new"
  by (simp add: enqueueB_def reanchorB_def scheduleB_def Let_def split: option.splits)

lemma partsB_sent [simp]: "sent (partsB ps s) = sent s"
  by (induction ps s rule: partsB.induct) simp_all

lemma partsB_stopped [simp]: "stopped (partsB ps s) = stopped s"
  by (induction ps s rule: partsB.induct) simp_all

lemma partsB_grows:
  "\<exists>new. sourcesRef (partsB ps s) = sourcesRef s @ new \<and> started (partsB ps s) = started s @ new"
proof (induction ps s rule: partsB.induct)
  case (3 dec now ps s)
  from enqueueB_grows[of now dec s] obtain n1 where
    n1: "sourcesRef (enqueueB now dec s) = sourcesRef s @ n1"
        "started (enqueueB now dec s) = started s @ n1" by auto
  from 3 obtain n2 where
    "sourcesRef (partsB ps (enqueueB now dec s)) = sourcesRef (enqueueB now dec s) @ n2"
    "started (partsB ps (enqueueB now dec s)) = started (enqueueB now dec s) @ n2" by auto
  with n1 show ?case by simp
qed simp_all

lemma audioB_facts:
  "sent (audioB m s) = sent s" "stopped (audioB m s) = stopped s"
  "\<exists>new. sourcesRef (audioB m s) = sourcesRef s @ new \<and> started (audioB m s) = started s @ new"
  using partsB_grows by (simp_all add: audioB_def split: option.splits)

lemma interruptedB_fields [simp]:
  "sourcesRef (interruptedB s) = []"
  "nextStartTimeRef (interruptedB s) = 0"
  "robotState (interruptedB s) = LISTENING"
  "volume (interruptedB s) = 0"
  "stopped (interruptedB s) = stopped s @ map sid (sourcesRef s)"
  "started (interruptedB s) = started s"
  "sent (interruptedB s) = sent s"
  by (simp_all add: interruptedB_def stopSources_def)

lemma transcriptsB_playback [simp]:
  "sourcesRef (turnCompleteB m (transcriptionB m s)) = sourcesRef s"
  "started (turnCompleteB m (transcriptionB m s)) = started s"
  "stopped (turnCompleteB m (transcriptionB m s)) = stopped s"
  "sent (turnCompleteB m (transcriptionB m s)) = sent s"
  "nextStartTimeRef (turnCompleteB m (transcriptionB m s)) = nextStartTimeRef s"
  "robotState (turnCompleteB m (transcriptionB m s)) = robotState s"
  "volume (turnCompleteB m (transcriptionB m s)) = volume s"
  by (simp_all add: turnCompleteB_def transcriptionB_def Let_def split: option.splits)

text \<open>The sample states, evaluated.\<close>

lemmas sample_defs =
  listeningA_def listeningB_def initialA_def initialB_def silentMessage_def twoBuffers_def
  playingA_def playingB_def unknownCall_def moodCallA_def moodCallB_def

lemmas handler_defs =
  onmessageA_def toolsA_def audioA_def turnCompleteA_def transcriptionA_def addLog_def
  enqueueA_def interruptedA_def stopSources_def
  onmessageB_def toolsB_def audioB_def turnCompleteB_def transcriptionB_def
  enqueueB_def reanchorB_def scheduleB_def interruptedB_def decodes_def Let_def

text \<open>A property that every call of \<^verbatim>\<open>startSession\<close> keeps is kept by the chain of retries.\<close>

lemma runStartA_preserves:
  assumes step: "\<And>env isInit n s. Q s \<Longrightarrow> Q (fst (startSessionA env isInit n s))"
  shows "Q s \<Longrightarrow> Q (runStartA env isInit n s)"
proof (induction env isInit n s rule: runStartA.induct)
  case (1 env isInit n s)
  obtain s' r where p: "startSessionA env isInit n s = (s', r)"
    by (cases "startSessionA env isInit n s")
  have q: "Q s'"
    using step[OF "1.prems", of env isInit n] p by simp
  show ?case
  proof (cases r)
    case None
    with p q show ?thesis
      by (simp add: runStartA.simps[of env isInit n s])
  next
    case (Some n')
    with p q "1.IH" show ?thesis
      by (simp add: runStartA.simps[of env isInit n s])
  qed
qed

lemma quiet_refl [simp]: "quiet s s"
  by (simp add: quiet_def)

lemma quiet_trans: "quiet s s1 \<Longrightarrow> quiet s1 s2 \<Longrightarrow> quiet s s2"
  by (simp add: quiet_def)

lemma quiet_stopSessionA: "quiet s (stopSessionA s)"
  by (simp add: quiet_def stopSessionA_def addLog_def stopSources_def)

lemma quiet_handleErrorA: "quiet s (handleErrorA err s)"
  by (simp add: quiet_def handleErrorA_def stopSessionA_def addLog_def stopSources_def Let_def
      split: prod.splits)

lemma quiet_startSessionA: "quiet s (fst (startSessionA env isInit n s))"
  by (simp add: quiet_def startSessionA_def handleInitializationA_def handleErrorA_def
      stopSessionA_def addLog_def stopSources_def Let_def split: prod.splits option.splits)

lemma quiet_runStartA: "quiet s (runStartA env isInit n s)"
proof -
  have "quiet s s \<Longrightarrow> quiet s (runStartA env isInit n s)"
    by (rule runStartA_preserves[where Q = "quiet s"])
       (erule quiet_trans, rule quiet_startSessionA)
  then show ?thesis by simp
qed

lemma quiet_handleA:
  "keepsDeafened e \<Longrightarrow> isDeafenedRef s \<Longrightarrow> ttsPending s = 0 \<or> \<not> speechAnswer e \<Longrightarrow>
   quiet s (handleA e s)"
proof (cases e)
  case (Message m)
  assume "isDeafenedRef s"
  with Message show ?thesis by (simp add: onmessageA_def)
next
  case (Ended i)
  then show ?thesis by (simp add: quiet_def onended_def Let_def)
next
  case (AudioProcess frame)
  then show ?thesis by (simp add: quiet_def onaudioprocessA_def Let_def)
next
  case ToggleMute
  then show ?thesis by (simp add: quiet_def toggleMute_def effect_isMuted_def)
next
  case Open
  assume "isDeafenedRef s"
  with Open show ?thesis
    by (simp add: quiet_def onopenA_def Let_def addLog_def speakTextAsked_def)
next
  case (TtsResume dec now)
  assume "ttsPending s = 0 \<or> \<not> speechAnswer e"
  with TtsResume show ?thesis by simp
next
  case (Close code)
  then show ?thesis
    using quiet_handleErrorA by (simp add: oncloseA_def) (simp add: quiet_def)
next
  case (OnError err)
  then show ?thesis by (simp add: quiet_handleErrorA)
next
  case StopSession
  then show ?thesis by (simp add: quiet_stopSessionA)
next
  case (StartSession env)
  then show ?thesis by (simp add: quiet_runStartA)
qed simp_all

lemma quiet_stepA:
  "keepsDeafened e \<Longrightarrow> isDeafenedRef s \<Longrightarrow> ttsPending s = 0 \<or> \<not> speechAnswer e \<Longrightarrow>
   quiet s (stepA e s)"
  using quiet_handleA[of e s] by (simp add: stepA_def effectsA_def quiet_def)

lemma quiet_runA:
  "list_all keepsDeafened es \<Longrightarrow> isDeafenedRef s \<Longrightarrow>
   ttsPending s = 0 \<or> \<not> list_ex speechAnswer es \<Longrightarrow> quiet s (runA es s)"
proof (induction es arbitrary: s)
  case Nil
  then show ?case by simp
next
  case (Cons e es)
  then have 1: "quiet s (stepA e s)"
    by (auto simp: quiet_stepA)
  with Cons.prems have "isDeafenedRef (stepA e s)"
    "ttsPending (stepA e s) = 0 \<or> \<not> list_ex speechAnswer es"
    by (auto simp: quiet_def)
  with Cons have "quiet (stepA e s) (runA es (stepA e s))"
    by simp
  with 1 show ?case
    by (simp add: quiet_trans[of s "stepA e s"])
qed

lemma startsWith_set: "startsWith s sub \<Longrightarrow> set sub \<subseteq> set s"
  by (induction s sub rule: startsWith.induct) auto

lemma str_includes_set: "str_includes s sub \<Longrightarrow> set sub \<subseteq> set s"
proof (induction s)
  case Nil
  then show ?case by simp
next
  case (Cons x xs)
  then show ?case using startsWith_set[of "x # xs" sub] by auto
qed

lemma digit_set: "d < 10 \<Longrightarrow> digit d \<in> set ''0123456789''"
  unfolding digit_def by (rule nth_mem) simp

lemma string_of_nat_set: "set (string_of_nat n) \<subseteq> set ''0123456789''"
proof (induction n rule: string_of_nat.induct)
  case (1 n)
  show ?case
  proof (cases "n < 10")
    case True
    then show ?thesis using digit_set[of n] by (simp add: string_of_nat.simps[of n])
  next
    case False
    then show ?thesis using 1 digit_set[of "n mod 10"]
      by (simp add: string_of_nat.simps[of n])
  qed
qed

lemma not_includes:
  assumes "set s \<subseteq> A" "c \<in> set sub" "c \<notin> A"
  shows "\<not> str_includes s sub"
proof
  assume "str_includes s sub"
  then have "set sub \<subseteq> set s" by (rule str_includes_set)
  with assms(2) have "c \<in> set s" by (rule_tac subsetD)
  with assms(1) have "c \<in> A" by (rule_tac subsetD)
  with assms(3) show False by simp
qed

lemma classifyA_severed:
  "classifyA \<lparr>err_name = ''Error'', err_message = ''Link severed: '' @ string_of_nat code\<rparr> =
     (''An unexpected error occurred.'', Warning)"
proof -
  let ?m = "''Link severed: '' @ string_of_nat code"
  have s: "set ?m \<subseteq> set ''Link severed: '' \<union> set ''0123456789''"
    unfolding set_append by (rule Un_mono[OF subset_refl string_of_nat_set])
  have 1: "\<not> str_includes ?m ''Operation is not implemented''"
    by (rule not_includes[OF s, of "CHR ''O''"]) simp_all
  have 2: "\<not> str_includes ?m ''not supported''"
    by (rule not_includes[OF s, of "CHR ''p''"]) simp_all
  have 3: "\<not> str_includes ?m ''API_KEY''"
    by (rule not_includes[OF s, of "CHR ''A''"]) simp_all
  show ?thesis
    unfolding classifyA_def Let_def using 1 2 3 by simp
qed

lemma oncloseA_abnormal:
  assumes "code \<noteq> 1000" "isActiveRef s"
  shows "oncloseA code s =
     addLog System ''ERROR: An unexpected error occurred.''
       (s\<lparr>errorDetail := Some \<lparr>message = ''An unexpected error occurred.'', severity = Warning\<rparr>\<rparr>)"
proof -
  have "handleErrorA \<lparr>err_name = ''Error'', err_message = ''Link severed: '' @ string_of_nat code\<rparr> s =
     addLog System ''ERROR: An unexpected error occurred.''
       (s\<lparr>errorDetail := Some \<lparr>message = ''An unexpected error occurred.'', severity = Warning\<rparr>\<rparr>)"
    unfolding handleErrorA_def classifyA_severed by simp
  then show ?thesis
    unfolding oncloseA_def using assms by simp
qed

lemma startSessionB_fail:
  "apiKey env \<Longrightarrow> connectResult env n = Some err \<Longrightarrow>
   startSessionB env True n s =
     (if n < MAX_RETRIES
      then (s\<lparr>robotState := CONNECTING, errorDetail := None, isActive := True,
              nextStartTimeRef := 0,
              timeouts := timeouts s @ [(2 ^ n * 1000 + random env n * 500, n + 1)]\<rparr>, Some (n + 1))
      else (s\<lparr>robotState := ERROR,
               errorDetail := Some \<lparr>message = ''Neural handshake failed: '' @
                        or_else (err_message err) ''The service is unavailable'' @
                        ''. Check environment variables for API_KEY.'', severity = Critical\<rparr>,
               isActive := True, nextStartTimeRef := 0\<rparr>, None))"
  by (simp add: startSessionB_def Let_def)

lemma runStartB_all_fail:
  assumes "apiKey env" "connectResult env 0 = Some e0" "connectResult env 1 = Some e1"
    "connectResult env 2 = Some e2" "connectResult env 3 = Some e3"
  shows "runStartB env True 0 s =
     s\<lparr>robotState := ERROR,
       errorDetail := Some \<lparr>message = ''Neural handshake failed: '' @
                        or_else (err_message e3) ''The service is unavailable'' @
                        ''. Check environment variables for API_KEY.'', severity = Critical\<rparr>,
       isActive := True, nextStartTimeRef := 0,
       timeouts := timeouts s @ [(1000 + random env 0 * 500, 1), (2000 + random env 1 * 500, 2),
          (4000 + random env 2 * 500, 3)]\<rparr>"
  using assms
  by (simp add: runStartB.simps[of env True 0] runStartB.simps[of env True 1]
      runStartB.simps[of env True "Suc 0"] runStartB.simps[of env True "Suc (Suc 0)"]
      runStartB.simps[of env True 2] runStartB.simps[of env True 3]
      runStartB.simps[of env True "Suc (Suc (Suc 0))"]
      startSessionB_fail MAX_RETRIES_def numeral_2_eq_2 numeral_3_eq_3)

lemma startSessionA_fail:
  "apiKey env \<Longrightarrow> audioCtxResult env = None \<Longrightarrow> connectResult env n = Some err \<Longrightarrow>
   startSessionA env True n s =
     (if n < 2
      then (s\<lparr>outputAudioCtxRef := True, robotState := CONNECTING, errorDetail := None,
              isActive := True, nextStartTimeRef := 0,
              timeouts := timeouts s @ [(2000, n + 1)]\<rparr>, Some (n + 1))
      else (handleErrorA err
              (s\<lparr>outputAudioCtxRef := True, robotState := CONNECTING, errorDetail := None,
                 isActive := True, nextStartTimeRef := 0\<rparr>), None))"
  by (simp add: startSessionA_def Let_def)

lemma runStartA_all_fail:
  assumes "apiKey env" "audioCtxResult env = None" "connectResult env 0 = Some e0"
    "connectResult env 1 = Some e1" "connectResult env 2 = Some e2"
  shows "runStartA env True 0 s =
     handleErrorA e2
       (s\<lparr>timeouts := timeouts s @ [(2000, 1), (2000, 2)], outputAudioCtxRef := True,
          robotState := CONNECTING, errorDetail := None, isActive := True,
          nextStartTimeRef := 0\<rparr>)"
  using assms
  by (simp add: runStartA.simps[of env True 0] runStartA.simps[of env True 1]
      runStartA.simps[of env True "Suc 0"] runStartA.simps[of env True "Suc (Suc 0)"]
      runStartA.simps[of env True 2] startSessionA_fail numeral_2_eq_2)

lemma handleErrorA_fields:
  "timeouts (handleErrorA err s) = timeouts s"
  "errorDetail (handleErrorA err s) =
     Some \<lparr>message = fst (classifyA err), severity = snd (classifyA err)\<rparr>"
  "robotState (handleErrorA err s) = (if snd (classifyA err) = Critical then ERROR else robotState s)"
  by (simp_all add: handleErrorA_def stopSessionA_def addLog_def stopSources_def Let_def
      split: prod.splits)

lemma runStartB_preserves:
  assumes step: "\<And>env isInit n s. Q s \<Longrightarrow> Q (fst (startSessionB env isInit n s))"
  shows "Q s \<Longrightarrow> Q (runStartB env isInit n s)"
proof (induction env isInit n s rule: runStartB.induct)
  case (1 env isInit n s)
  obtain s' r where p: "startSessionB env isInit n s = (s', r)"
    by (cases "startSessionB env isInit n s")
  have q: "Q s'"
    using step[OF "1.prems", of env isInit n] p by simp
  show ?case
  proof (cases r)
    case None
    with p q show ?thesis
      by (simp add: runStartB.simps[of env isInit n s])
  next
    case (Some n')
    with p q "1.IH" show ?thesis
      by (simp add: runStartB.simps[of env isInit n s])
  qed
qed

lemma runStartB_cursor:
  "sourcesRef (runStartB env isInit n s) = sourcesRef s \<and>
   (nextStartTimeRef (runStartB env isInit n s) = nextStartTimeRef s \<or>
    nextStartTimeRef (runStartB env isInit n s) = 0)"
proof -
  let ?Q = "\<lambda>s'. sourcesRef s' = sourcesRef s \<and>
     (nextStartTimeRef s' = nextStartTimeRef s \<or> nextStartTimeRef s' = 0)"
  have "?Q s \<Longrightarrow> ?Q (runStartB env isInit n s)"
    by (rule runStartB_preserves[where Q = ?Q])
       (auto simp: startSessionB_def handleInitializationB_def Let_def split: option.splits)
  then show ?thesis by simp
qed

lemma cursorInv_enqueueB:
  assumes "cursorInv c s" "c \<le> now" "case dec of None \<Rightarrow> True | Some d \<Rightarrow> 0 \<le> d"
  shows "cursorInv now (enqueueB now dec s) \<and>
         nextStartTimeRef s \<le> nextStartTimeRef (enqueueB now dec s)"
  using assms
  by (cases dec)
     (auto simp: cursorInv_def enqueueB_def reanchorB_def scheduleB_def Let_def list_all_iff)

lemma reanchorB_max:
  assumes "cursorInv c s" "c \<le> now"
  shows "nextStartTimeRef (reanchorB now s) = max (nextStartTimeRef s) now"
  using assms by (auto simp: cursorInv_def reanchorB_def list_all_iff)

lemma cursorInv_partsB:
  "cursorInv c s \<Longrightarrow> partsTimed c ps \<Longrightarrow>
   cursorInv (lastClock c ps) (partsB ps s) \<and> nextStartTimeRef s \<le> nextStartTimeRef (partsB ps s)"
proof (induction ps s arbitrary: c rule: partsB.induct)
  case (3 dec now ps s)
  from 3 have a: "c \<le> now" "case dec of None \<Rightarrow> True | Some d \<Rightarrow> 0 \<le> d" "partsTimed now ps"
    by simp_all
  from cursorInv_enqueueB[OF "3.prems"(1) a(1,2)]
  have b: "cursorInv now (enqueueB now dec s)"
    "nextStartTimeRef s \<le> nextStartTimeRef (enqueueB now dec s)" by simp_all
  from "3.IH"[OF b(1) a(3)] b(2) show ?case by simp
qed simp_all

lemma cursorInv_mono: "cursorInv c s \<Longrightarrow> c \<le> t \<Longrightarrow> cursorInv t s"
  by (auto simp: cursorInv_def)

lemma cursorInv_cong:
  "cursorInv c s \<Longrightarrow> sourcesRef s' = sourcesRef s \<Longrightarrow> nextStartTimeRef s' = nextStartTimeRef s \<Longrightarrow>
   cursorInv c s'"
  by (simp add: cursorInv_def)

lemma cursorInv_zero: "0 \<le> c \<Longrightarrow> nextStartTimeRef s = 0 \<Longrightarrow> cursorInv c s"
  by (simp add: cursorInv_def)

lemma lastClock_ge: "partsTimed c ps \<Longrightarrow> c \<le> lastClock c ps"
proof (induction c ps rule: lastClock.induct)
  case (3 c dec now ps)
  then show ?case by fastforce
qed simp_all

lemma audioB_cursor:
  assumes "cursorInv c s" "c \<le> t" "case modelTurn m of None \<Rightarrow> True | Some ps \<Rightarrow> partsTimed t ps"
  shows "cursorInv (clockAfter t (MessageB m)) (audioB m s) \<and>
     nextStartTimeRef s \<le> nextStartTimeRef (audioB m s) \<and> 0 \<le> clockAfter t (MessageB m)"
proof (cases "modelTurn m")
  case None
  with assms show ?thesis using cursorInv_mono[OF assms(1,2)] by (simp add: audioB_def cursorInv_def)
next
  case (Some ps)
  with assms have p: "partsTimed t ps" by simp
  from cursorInv_partsB[OF cursorInv_mono[OF assms(1,2)] p] Some
  show ?thesis by (simp add: audioB_def cursorInv_def)
qed

lemma handleB_cursor:
  assumes "cursorInv c s" "okB c s t e"
  shows "cursorInv (clockAfter t e) (handleB e s) \<and>
     (nextStartTimeRef s \<le> nextStartTimeRef (handleB e s) \<or>
      resetsB e \<and> nextStartTimeRef (handleB e s) = 0)"
proof (cases e)
  case (MessageB m)
  with assms have ok: "c \<le> t" "case modelTurn m of None \<Rightarrow> True | Some ps \<Rightarrow> partsTimed t ps"
    by simp_all
  have "cursorInv c (toolsB m s)"
    using assms(1) by (rule cursorInv_cong) simp_all
  from audioB_cursor[OF this ok]
  have a: "cursorInv (clockAfter t (MessageB m)) (audioB m (toolsB m s))"
    "nextStartTimeRef s \<le> nextStartTimeRef (audioB m (toolsB m s))"
    "0 \<le> clockAfter t (MessageB m)" by simp_all
  show ?thesis
  proof (cases "interrupted m")
    case True
    then have "nextStartTimeRef (onmessageB m s) = 0"
      by (simp add: onmessageB_def Let_def)
    with a(3) True MessageB show ?thesis
      by (simp add: cursorInv_zero)
  next
    case False
    then have "sourcesRef (onmessageB m s) = sourcesRef (audioB m (toolsB m s))"
      "nextStartTimeRef (onmessageB m s) = nextStartTimeRef (audioB m (toolsB m s))"
      by (simp_all add: onmessageB_def Let_def)
    with a MessageB show ?thesis
      using cursorInv_cong[OF a(1), of "onmessageB m s"] by simp
  qed
next
  case (EndedB i)
  with assms show ?thesis
    by (auto simp: cursorInv_def onended_def Let_def list_all_iff filter_empty_conv)
next
  case (AudioProcessB frame)
  with assms show ?thesis
    by (auto simp: cursorInv_def onaudioprocessB_def Let_def)
next
  case OpenB
  with assms show ?thesis
    by (auto simp: cursorInv_def onopenB_def)
next
  case (CloseB code)
  with assms show ?thesis
    by (auto simp: cursorInv_def oncloseB_def)
next
  case (OnErrorB err)
  with assms show ?thesis
    by (auto simp: cursorInv_def onerrorB_def)
next
  case (SendMessageB msg)
  with assms show ?thesis
    by (auto simp: cursorInv_def handleSendMessage_def)
next
  case StopSessionB
  with assms show ?thesis
    by (auto simp: cursorInv_def stopSessionB_def stopSources_def)
next
  case (StartSessionB env)
  with assms runStartB_cursor[of env "isInitialized s" 0 "s\<lparr>isActiveClosure := isActive s\<rparr>"]
  show ?thesis
    by (auto simp: cursorInv_def)
qed

lemma stepB_cursor:
  assumes "cursorInv c s" "okB c s t e"
  shows "cursorInv (clockAfter t e) (stepB e s) \<and>
     (nextStartTimeRef s \<le> nextStartTimeRef (stepB e s) \<or>
      resetsB e \<and> nextStartTimeRef (stepB e s) = 0)"
  using handleB_cursor[OF assms] by (simp add: stepB_def effectsB_def cursorInv_def)

lemma reachB_cursorInv: "reachB c s \<Longrightarrow> cursorInv c s"
proof (induction rule: reachB.induct)
  case initial
  then show ?case by (simp add: cursorInv_def initialB_def)
next
  case (step c s t e)
  then show ?case using stepB_cursor by blast
qed

lemma length_schedule_spec [simp]: "length (schedule_spec p fs) = length fs"
  by (induction p fs rule: schedule_spec.induct) simp_all

lemma schedule_spec_snd: "i < length fs \<Longrightarrow> snd (schedule_spec p fs ! i) = snd (fs ! i)"
proof (induction p fs arbitrary: i rule: schedule_spec.induct)
  case (2 prev now d fs)
  then show ?case by (cases i) simp_all
qed simp

lemma schedule_spec_fst:
  "i < length fs \<Longrightarrow>
   fst (schedule_spec p fs ! i) =
     max (if i = 0 then p else fst (schedule_spec p fs ! (i - 1)) + snd (fs ! (i - 1)))
         (fst (fs ! i))"
proof (induction p fs arbitrary: i rule: schedule_spec.induct)
  case (2 prev now d fs)
  show ?case
  proof (cases i)
    case 0
    then show ?thesis by simp
  next
    case (Suc j)
    with 2 have j: "j < length fs" by simp
    from "2.IH"[OF j] Suc show ?thesis
      by (cases j) simp_all
  qed
qed simp

lemma obeysRecurrence_schedule_spec: "obeysRecurrence p fs (schedule_spec p fs)"
  unfolding obeysRecurrence_def
proof (intro conjI allI impI)
  show "length (schedule_spec p fs) = length fs" by simp
next
  fix i assume "i < length fs"
  then show "fst (schedule_spec p fs ! i) =
      max (if i = 0 then p else fst (schedule_spec p fs ! (i - 1)) + snd (fs ! (i - 1)))
          (fst (fs ! i))"
    by (rule schedule_spec_fst)
next
  fix i assume "i < length fs"
  then show "snd (schedule_spec p fs ! i) = snd (fs ! i)"
    by (rule schedule_spec_snd)
qed

lemma obeysRecurrence_gapless:
  assumes a: "obeysRecurrence p fs S"
  shows "gapless fs S"
  unfolding gapless_def
proof (intro allI impI)
  fix i
  assume i: "i < length fs"
    and g: "0 < i \<and> fst (fs ! i) \<le> fst (S ! (i - 1)) + snd (S ! (i - 1))"
  from a have r: "\<And>j. j < length fs \<Longrightarrow>
      fst (S ! j) =
        max (if j = 0 then p else fst (S ! (j - 1)) + snd (fs ! (j - 1))) (fst (fs ! j)) \<and>
      snd (S ! j) = snd (fs ! j)"
    unfolding obeysRecurrence_def by blast
  from r[of i] i g
  have 1: "fst (S ! i) = max (fst (S ! (i - 1)) + snd (fs ! (i - 1))) (fst (fs ! i))"
    by simp
  from i g have "i - 1 < length fs" by simp
  from r[OF this] have 2: "snd (S ! (i - 1)) = snd (fs ! (i - 1))"
    by blast
  from 1 2 g show "fst (S ! i) = fst (S ! (i - 1)) + snd (S ! (i - 1))"
    by simp
qed

lemma enqueueAllA_started:
  "\<exists>ys. started (enqueueAllA fs s) = started s @ ys \<and>
     map (\<lambda>x. (startAt x, duration x)) ys = schedule_spec (nextStartTimeRef s) fs"
proof (induction fs s rule: enqueueAllA.induct)
  case (2 now d fs s)
  then obtain ys where
    "started (enqueueAllA fs (enqueueA now d s)) = started (enqueueA now d s) @ ys"
    "map (\<lambda>x. (startAt x, duration x)) ys =
       schedule_spec (nextStartTimeRef (enqueueA now d s)) fs" by auto
  then show ?case by simp
qed simp

lemma startedSince_enqueueAllA:
  "startedSince s (enqueueAllA fs s) = schedule_spec (nextStartTimeRef s) fs"
  using enqueueAllA_started[of fs s] by (auto simp: startedSince_def)

lemma enqueueB_Some:
  assumes "sourcesRef t = [] \<longrightarrow> nextStartTimeRef t \<le> now"
  shows "started (enqueueB now (Some d) t) =
       started t @ [\<lparr>sid = created t, startAt = max (nextStartTimeRef t) now, duration = d\<rparr>]"
    "sourcesRef (enqueueB now (Some d) t) =
       sourcesRef t @ [\<lparr>sid = created t, startAt = max (nextStartTimeRef t) now, duration = d\<rparr>]"
    "nextStartTimeRef (enqueueB now (Some d) t) = max (nextStartTimeRef t) now + d"
    "robotState (enqueueB now (Some d) t) = SPEAKING"
  using assms by (auto simp: enqueueB_def reanchorB_def scheduleB_def Let_def)

lemma cursorInv_empty: "cursorInv c t \<Longrightarrow> sourcesRef t = [] \<Longrightarrow> nextStartTimeRef t \<le> c"
  by (simp add: cursorInv_def)

lemma le_max_add: "0 \<le> d \<Longrightarrow> (x::real) \<le> max x y + d"
  by (simp add: max_def)

lemma partsA_cursor:
  "list_all partDurationOk ps \<Longrightarrow> nextStartTimeRef s \<le> nextStartTimeRef (final (partsA ps s))"
proof (induction ps s rule: partsA.induct)
  case (4 d now ps s)
  then have "nextStartTimeRef (enqueueA now d s) \<le>
      nextStartTimeRef (final (partsA ps (enqueueA now d s)))" by simp
  moreover from 4 have "nextStartTimeRef s \<le> nextStartTimeRef (enqueueA now d s)"
    by (simp add: le_max_add)
  ultimately show ?case by simp
qed simp_all

lemma handleErrorA_cursor:
  "nextStartTimeRef (handleErrorA err s) =
     (if snd (classifyA err) = Critical then 0 else nextStartTimeRef s)"
  by (simp add: handleErrorA_def stopSessionA_def addLog_def stopSources_def Let_def
      split: prod.splits)

lemma startSessionA_cursor:
  "nextStartTimeRef (fst (startSessionA env isInit n s)) = nextStartTimeRef s \<or>
   nextStartTimeRef (fst (startSessionA env isInit n s)) = 0"
  by (simp add: startSessionA_def handleInitializationA_def handleErrorA_cursor Let_def
      split: option.splits prod.splits)

lemma runStartA_cursor:
  "nextStartTimeRef (runStartA env isInit n s) = nextStartTimeRef s \<or>
   nextStartTimeRef (runStartA env isInit n s) = 0"
proof -
  let ?Q = "\<lambda>s'. nextStartTimeRef s' = nextStartTimeRef s \<or> nextStartTimeRef s' = 0"
  have "?Q s \<Longrightarrow> ?Q (runStartA env isInit n s)"
  proof (rule runStartA_preserves[where Q = ?Q])
    fix env isInit n and s' :: stateA
    assume "?Q s'"
    with startSessionA_cursor[of env isInit n s']
    show "?Q (fst (startSessionA env isInit n s'))" by auto
  qed simp
  then show ?thesis by simp
qed

lemma onmessageA_cursor:
  assumes "case modelTurn m of None \<Rightarrow> True | Some ps \<Rightarrow> list_all partDurationOk ps"
  shows "nextStartTimeRef s \<le> nextStartTimeRef (final (onmessageA m s)) \<or>
     interrupted m \<and> nextStartTimeRef (final (onmessageA m s)) = 0"
proof (cases "isDeafenedRef s")
  case True
  then show ?thesis by (simp add: onmessageA_def)
next
  case False
  define s2 where "s2 = toolsA m (turnCompleteA m (transcriptionA m s))"
  have c2: "nextStartTimeRef s2 = nextStartTimeRef s" by (simp add: s2_def)
  have au: "nextStartTimeRef s2 \<le> nextStartTimeRef (final (audioA m s2))"
    using assms partsA_cursor by (cases "modelTurn m") (simp_all add: audioA_def)
  show ?thesis
  proof (cases "audioA m s2")
    case (Completed s3)
    with False au c2 show ?thesis
      by (simp add: onmessageA_def s2_def)
  next
    case (Rejected s3)
    with False au c2 show ?thesis
      by (simp add: onmessageA_def s2_def)
  qed
qed

lemma handleA_cursor:
  assumes "durationsOk e"
  shows "nextStartTimeRef s \<le> nextStartTimeRef (handleA e s) \<or>
     resetsA e \<and> nextStartTimeRef (handleA e s) = 0"
proof (cases e)
  case (Message m)
  with assms onmessageA_cursor[of m s] show ?thesis by simp
next
  case (Ended i)
  then show ?thesis by (simp add: onended_def Let_def)
next
  case (AudioProcess frame)
  then show ?thesis by (simp add: onaudioprocessA_def Let_def)
next
  case ToggleMute
  then show ?thesis by (simp add: toggleMute_def effect_isMuted_def)
next
  case ToggleDeafen
  then show ?thesis
    by (simp add: toggleDeafen_def effect_isDeafened_def stopSources_def Let_def)
next
  case Open
  then show ?thesis by (simp add: onopenA_def Let_def)
next
  case (Close code)
  show ?thesis
  proof (cases "code \<noteq> 1000 \<and> isActiveRef s")
    case True
    with Close show ?thesis by (simp add: oncloseA_abnormal)
  next
    case False
    with Close show ?thesis by (auto simp: oncloseA_def)
  qed
next
  case (OnError err)
  then show ?thesis by (simp add: handleErrorA_cursor)
next
  case (TtsResume dec now)
  with assms show ?thesis
    by (cases dec) (simp_all add: speakTextResume_def le_max_add)
next
  case StopSession
  then show ?thesis by (simp add: stopSessionA_def stopSources_def)
next
  case (StartSession env)
  with runStartA_cursor[of env "isInitialized s" 0 s] show ?thesis by auto
qed

lemma stepA_cursor:
  "durationsOk e \<Longrightarrow>
   nextStartTimeRef s \<le> nextStartTimeRef (stepA e s) \<or>
     resetsA e \<and> nextStartTimeRef (stepA e s) = 0"
  using handleA_cursor[of e s] by (simp add: stepA_def effectsA_def)

text \<open>
  The listening state of variant B is reached from the initial state: the first click
  on the wake button asks for the permissions, the second connects, then the channel
  opens.
\<close>

lemma listeningB_steps:
  "stepB OpenB (stepB (StartSessionB grantedEnv) (stepB (StartSessionB grantedEnv) initialB)) =
     listeningB"
proof -
  have r1: "runStartB grantedEnv False 0 initialB = initialB\<lparr>isInitialized := True\<rparr>"
    by (subst runStartB.simps)
       (simp add: startSessionB_def handleInitializationB_def grantedEnv_def initialB_def Let_def)
  have r2: "runStartB grantedEnv True 0 (initialB\<lparr>isInitialized := True\<rparr>) =
      initialB\<lparr>isInitialized := True, robotState := CONNECTING, isActive := True,
        sessionRef := True\<rparr>"
    by (subst runStartB.simps)
       (simp add: startSessionB_def grantedEnv_def initialB_def Let_def)
  have i: "isInitialized initialB = False" "initialB\<lparr>isActiveClosure := isActive initialB\<rparr> = initialB"
    "isInitialized (initialB\<lparr>isInitialized := True\<rparr>) = True"
    "initialB\<lparr>isInitialized := True,
       isActiveClosure := isActive (initialB\<lparr>isInitialized := True\<rparr>)\<rparr> =
     initialB\<lparr>isInitialized := True\<rparr>"
    by (simp_all add: initialB_def)
  have 1: "stepB (StartSessionB grantedEnv) initialB = initialB\<lparr>isInitialized := True\<rparr>"
    unfolding stepB_def handleB.simps i r1 by (simp add: effectsB_def initialB_def)
  have 2: "stepB (StartSessionB grantedEnv) (initialB\<lparr>isInitialized := True\<rparr>) =
      initialB\<lparr>isInitialized := True, robotState := CONNECTING, robotStateRef := CONNECTING,
        isActive := True, sessionRef := True\<rparr>"
    unfolding stepB_def handleB.simps i r2 by (simp add: effectsB_def initialB_def)
  show ?thesis
    unfolding 1 2
    by (simp add: stepB_def effectsB_def onopenB_def listeningB_def initialB_def)
qed

lemma reachB_listeningB: "reachB 0 listeningB"
proof -
  have 1: "reachB 0 (stepB (StartSessionB grantedEnv) initialB)"
    using reachB.step[OF reachB.initial, of 0 "StartSessionB grantedEnv"] by simp
  have 2: "reachB 0 (stepB (StartSessionB grantedEnv) (stepB (StartSessionB grantedEnv) initialB))"
    using reachB.step[OF 1, of 0 "StartSessionB grantedEnv"] by simp
  have "reachB 0 (stepB OpenB
      (stepB (StartSessionB grantedEnv) (stepB (StartSessionB grantedEnv) initialB)))"
    using reachB.step[OF 2, of 0 OpenB] by simp
  then show ?thesis by (simp only: listeningB_steps)
qed

text \<open>
  The value captured by the last call of \<^verbatim>\<open>startSession\<close> is the value of \<^verbatim>\<open>isActive\<close> at
  the click, and no other event changes it.
\<close>

lemma toolCallsB_closure [simp]: "isActiveClosure (toolCallsB fcs s) = isActiveClosure s"
  by (induction fcs arbitrary: s) (simp_all add: Let_def)

lemma partsB_closure [simp]: "isActiveClosure (partsB ps s) = isActiveClosure s"
  by (induction ps s rule: partsB.induct)
     (simp_all add: enqueueB_def reanchorB_def scheduleB_def Let_def split: option.splits)

lemma onmessageB_closure: "isActiveClosure (onmessageB m s) = isActiveClosure s"
  by (simp add: onmessageB_def toolsB_def audioB_def turnCompleteB_def transcriptionB_def
      interruptedB_def stopSources_def Let_def split: option.splits)

lemma runStartB_closure: "isActiveClosure (runStartB env isInit n s) = isActiveClosure s"
proof -
  let ?Q = "\<lambda>s'. isActiveClosure s' = isActiveClosure s"
  have "?Q s \<Longrightarrow> ?Q (runStartB env isInit n s)"
    by (rule runStartB_preserves[where Q = ?Q])
       (auto simp: startSessionB_def handleInitializationB_def Let_def split: option.splits)
  then show ?thesis by simp
qed

lemma stepB_closure:
  "isActiveClosure (stepB e s) = (if startsB e then isActive s else isActiveClosure s)"
proof (cases e)
  case (MessageB m)
  then show ?thesis by (simp add: stepB_def effectsB_def onmessageB_closure)
next
  case (StartSessionB env)
  then show ?thesis by (simp add: stepB_def effectsB_def runStartB_closure)
qed (simp_all add: stepB_def effectsB_def onended_def onaudioprocessB_def onopenB_def
       oncloseB_def onerrorB_def handleSendMessage_def stopSessionB_def stopSources_def Let_def)

lemma resyncedB_steps:
  "stepB OpenB (stepB (StartSessionB grantedEnv) (stepB (OnErrorB streamError) listeningB)) =
     resyncedB"
proof -
  let ?e = "listeningB\<lparr>robotState := ERROR, robotStateRef := ERROR,
       errorDetail := Some \<lparr>message = ''Neural link unstable: Signal lost. Ensure your API key is correctly configured.'',
         severity = Warning\<rparr>\<rparr>"
  have 1: "stepB (OnErrorB streamError) listeningB = ?e"
    by (simp add: stepB_def effectsB_def onerrorB_def or_else_def streamError_def
        listeningB_def initialB_def)
  have i: "isInitialized ?e = True" "isActive ?e = True"
    by (simp_all add: listeningB_def initialB_def)
  have r: "runStartB grantedEnv True 0 (?e\<lparr>isActiveClosure := True\<rparr>) =
      listeningB\<lparr>robotState := CONNECTING, robotStateRef := ERROR, isActiveClosure := True\<rparr>"
    by (subst runStartB.simps)
       (simp add: startSessionB_def grantedEnv_def listeningB_def initialB_def Let_def)
  have 2: "stepB (StartSessionB grantedEnv) ?e =
      listeningB\<lparr>robotState := CONNECTING, robotStateRef := CONNECTING, isActiveClosure := True\<rparr>"
    unfolding stepB_def handleB.simps i r by (simp add: effectsB_def listeningB_def initialB_def)
  show ?thesis
    unfolding 1 2
    by (simp add: stepB_def effectsB_def onopenB_def resyncedB_def listeningB_def initialB_def)
qed

text \<open>Variant A after the click on the wake button, with every permission granted.\<close>

lemma wokenA:
  "stepA (StartSession grantedEnv) initialA =
     initialA\<lparr>robotState := CONNECTING, robotStateRef := CONNECTING, isActive := True,
       isActiveRef := True, isInitialized := True, sessionRef := True,
       outputAudioCtxRef := True\<rparr>"
proof -
  have i: "isInitialized initialA = False"
    by (simp add: initialA_def)
  have r: "runStartA grantedEnv False 0 initialA =
     initialA\<lparr>robotState := CONNECTING, isActive := True,
       isInitialized := True, sessionRef := True, outputAudioCtxRef := True\<rparr>"
    by (subst runStartA.simps)
       (simp add: startSessionA_def handleInitializationA_def grantedEnv_def initialA_def Let_def)
  show ?thesis
    unfolding stepA_def handleA.simps i r by (simp add: effectsA_def initialA_def)
qed

text \<open>What one message does to the transcript accumulators and the log, and sequences of messages.\<close>

lemma partsA_transcript [simp]:
  "liveInput (final (partsA ps s)) = liveInput s"
  "liveOutput (final (partsA ps s)) = liveOutput s"
  "history (final (partsA ps s)) = history s"
  "isDeafenedRef (final (partsA ps s)) = isDeafenedRef s"
  by (induction ps s rule: partsA.induct) (simp_all add: enqueueA_def Let_def)

lemma partsA_outcome: "(\<exists>s'. partsA ps s = Completed s') = list_all partDecodes ps"
  by (induction ps s rule: partsA.induct) simp_all

lemma audioA_outcome: "(\<exists>s'. audioA m s = Completed s') = decodes m"
  by (simp add: audioA_def decodes_def partsA_outcome split: option.splits)

lemma audioA_transcript [simp]:
  "liveInput (final (audioA m s)) = liveInput s"
  "liveOutput (final (audioA m s)) = liveOutput s"
  "history (final (audioA m s)) = history s"
  "isDeafenedRef (final (audioA m s)) = isDeafenedRef s"
  by (simp_all add: audioA_def split: option.splits)

lemma toolCallsA_transcript [simp]:
  "liveInput (toolCallsA fcs s) = liveInput s"
  "liveOutput (toolCallsA fcs s) = liveOutput s"
  "history (toolCallsA fcs s) = history s"
  "isDeafenedRef (toolCallsA fcs s) = isDeafenedRef s"
  by (induction fcs arbitrary: s) simp_all

lemma toolsA_transcript [simp]:
  "liveInput (toolsA m s) = liveInput s"
  "liveOutput (toolsA m s) = liveOutput s"
  "history (toolsA m s) = history s"
  "isDeafenedRef (toolsA m s) = isDeafenedRef s"
  by (simp_all add: toolsA_def split: option.splits)

lemma onmessageA_final:
  "\<not> isDeafenedRef s \<Longrightarrow>
   final (onmessageA m s) =
     (let s3 = final (audioA m (toolsA m (turnCompleteA m (transcriptionA m s))))
      in if interrupted m \<and> decodes m then interruptedA s3 else s3)"
proof -
  assume d: "\<not> isDeafenedRef s"
  define s2 where "s2 = toolsA m (turnCompleteA m (transcriptionA m s))"
  show ?thesis
  proof (cases "audioA m s2")
    case (Completed s3)
    then have "decodes m" using audioA_outcome[of m s2] by auto
    with Completed d show ?thesis by (simp add: onmessageA_def s2_def)
  next
    case (Rejected s3)
    then have "\<not> decodes m" using audioA_outcome[of m s2] by auto
    with Rejected d show ?thesis by (simp add: onmessageA_def s2_def)
  qed
qed

lemma onmessageA_accumulates:
  assumes "\<not> isDeafenedRef s"
  shows "liveInput (final (onmessageA m s)) =
        (if turnComplete m then []
         else liveInput s @ (if outputTranscription m = None then heard m else []))"
    "liveOutput (final (onmessageA m s)) =
        (if turnComplete m \<or> interrupted m \<and> decodes m then [] else liveOutput s @ said m)"
    "history (final (onmessageA m s)) =
        history s @
        (if turnComplete m
         then flushed (liveInput s @ (if outputTranscription m = None then heard m else []))
                (liveOutput s @ said m)
         else [])"
    "\<not> isDeafenedRef (final (onmessageA m s))"
  unfolding onmessageA_final[OF assms] Let_def
  using assms
  by (auto simp add: interruptedA_def stopSources_def turnCompleteA_def transcriptionA_def
      addLog_def heard_def said_def flushed_def split: option.splits)

lemma turns_spec_append: "turns_spec (xs @ ys) acc = turns_spec ys (turns_spec xs acc)"
  by (induction xs arbitrary: acc) simp_all

lemma onmessageA_plain:
  assumes "\<not> isDeafenedRef s" "plainA m"
  shows "(liveInput (final (onmessageA m s)), liveOutput (final (onmessageA m s)),
      history (final (onmessageA m s))) =
       turns_spec (eventsOf m) (liveInput s, liveOutput s, history s)"
  unfolding onmessageA_accumulates[OF assms(1)]
  using assms(2)
  by (auto simp add: plainA_def eventsOf_def heard_def said_def flushed_def split: option.splits)

lemma messagesA_plain:
  "\<not> isDeafenedRef s \<Longrightarrow> list_all plainA ms \<Longrightarrow>
   (liveInput (messagesA ms s), liveOutput (messagesA ms s), history (messagesA ms s)) =
     turns_spec (concat (map eventsOf ms)) (liveInput s, liveOutput s, history s)"
proof (induction ms arbitrary: s)
  case Nil
  then show ?case by simp
next
  case (Cons m ms)
  then have p: "plainA m" "list_all plainA ms" by simp_all
  from onmessageA_accumulates(4)[OF Cons.prems(1), of m]
  have "\<not> isDeafenedRef (final (onmessageA m s))" .
  from Cons.IH[OF this p(2)] onmessageA_plain[OF Cons.prems(1) p(1)]
  show ?case by (simp add: turns_spec_append)
qed

lemma dialogue_toolCallsB [simp]: "dialogue (history (toolCallsB fcs s)) = dialogue (history s)"
  by (induction fcs arbitrary: s) (simp_all add: Let_def dialogue_def)

lemma toolCallsB_transcript [simp]:
  "currentInput (toolCallsB fcs s) = currentInput s"
  "currentOutput (toolCallsB fcs s) = currentOutput s"
  "currentInputRef (toolCallsB fcs s) = currentInputRef s"
  "currentOutputRef (toolCallsB fcs s) = currentOutputRef s"
  by (induction fcs arbitrary: s) (simp_all add: Let_def)

lemma partsB_transcript [simp]:
  "currentInput (partsB ps s) = currentInput s"
  "currentOutput (partsB ps s) = currentOutput s"
  "currentInputRef (partsB ps s) = currentInputRef s"
  "currentOutputRef (partsB ps s) = currentOutputRef s"
  "history (partsB ps s) = history s"
  by (induction ps s rule: partsB.induct)
     (simp_all add: enqueueB_def reanchorB_def scheduleB_def Let_def split: option.splits)

lemma dialogue_flushed [simp]: "dialogue (xs @ flushed i out) = dialogue xs @ flushed i out"
  by (simp add: dialogue_def flushed_def)

lemma onmessageB_accumulates:
  "currentInput (onmessageB m t) = (if turnComplete m then [] else currentInput t @ heard m)"
  "currentOutput (onmessageB m t) = (if turnComplete m then [] else currentOutput t @ said m)"
  "dialogue (history (onmessageB m t)) =
     dialogue (history t) @
     (if turnComplete m then flushed (currentInputRef t) (currentOutputRef t) else [])"
proof -
  define t2 where "t2 = audioB m (toolsB m t)"
  define t3 where "t3 = (if interrupted m then interruptedB t2 else t2)"
  have f: "currentInput t3 = currentInput t" "currentOutput t3 = currentOutput t"
    "currentInputRef t3 = currentInputRef t" "currentOutputRef t3 = currentOutputRef t"
    "dialogue (history t3) = dialogue (history t)"
    by (simp_all add: t3_def t2_def audioB_def toolsB_def interruptedB_def stopSources_def
        split: option.splits)
  have e: "onmessageB m t = turnCompleteB m (transcriptionB m t3)"
    by (simp add: onmessageB_def t3_def t2_def Let_def)
  show "currentInput (onmessageB m t) = (if turnComplete m then [] else currentInput t @ heard m)"
    unfolding e using f
    by (simp add: turnCompleteB_def transcriptionB_def heard_def Let_def split: option.splits)
  show "currentOutput (onmessageB m t) = (if turnComplete m then [] else currentOutput t @ said m)"
    unfolding e using f
    by (simp add: turnCompleteB_def transcriptionB_def said_def Let_def split: option.splits)
  have "history (onmessageB m t) =
      history t3 @ (if turnComplete m then flushed (currentInputRef t) (currentOutputRef t) else [])"
    unfolding e using f
    by (simp add: turnCompleteB_def transcriptionB_def flushed_def Let_def split: option.splits)
  with f(5) show "dialogue (history (onmessageB m t)) =
     dialogue (history t) @
     (if turnComplete m then flushed (currentInputRef t) (currentOutputRef t) else [])"
    by (cases "turnComplete m") (simp_all add: dialogue_flushed)
qed

lemma onmessageB_plain:
  assumes "synced t" "plainB m"
  shows "(currentInput (effectsB (onmessageB m t)), currentOutput (effectsB (onmessageB m t)),
      dialogue (history (effectsB (onmessageB m t)))) =
       turns_spec (eventsOf m) (currentInput t, currentOutput t, dialogue (history t)) \<and>
     synced (effectsB (onmessageB m t))"
proof -
  have e: "currentInput (effectsB u) = currentInput u" "currentOutput (effectsB u) = currentOutput u"
    "history (effectsB u) = history u" for u
    by (simp_all add: effectsB_def)
  have s: "synced (effectsB (onmessageB m t))"
    by (simp add: effectsB_def synced_def)
  have "(currentInput (effectsB (onmessageB m t)), currentOutput (effectsB (onmessageB m t)),
      dialogue (history (effectsB (onmessageB m t)))) =
       turns_spec (eventsOf m) (currentInput t, currentOutput t, dialogue (history t))"
    unfolding e onmessageB_accumulates
    using assms
    by (auto simp add: plainB_def synced_def eventsOf_def heard_def said_def flushed_def
        split: option.splits)
  with s show ?thesis by simp
qed

lemma messagesB_plain:
  "synced t \<Longrightarrow> list_all plainB ms \<Longrightarrow>
   (currentInput (messagesB ms t), currentOutput (messagesB ms t),
    dialogue (history (messagesB ms t))) =
     turns_spec (concat (map eventsOf ms)) (currentInput t, currentOutput t, dialogue (history t))"
proof (induction ms arbitrary: t)
  case Nil
  then show ?case by simp
next
  case (Cons m ms)
  then have p: "plainB m" "list_all plainB ms" by simp_all
  note 1 = onmessageB_plain[OF Cons.prems(1) p(1)]
  from 1 have "synced (effectsB (onmessageB m t))" by simp
  from Cons.IH[OF this p(2)] 1
  show ?case by (simp add: turns_spec_append)
qed

text \<open>What one message schedules, in each variant.\<close>

lemma partsA_decoded:
  "list_all partDecodes ps \<Longrightarrow> partsA ps s = Completed (enqueueAllA (fragmentsOf ps) s)"
  by (induction ps s rule: partsA.induct) simp_all

lemma enqueueAllA_grows:
  "\<exists>ys. started (enqueueAllA fs s) = started s @ ys \<and>
     sourcesRef (enqueueAllA fs s) = sourcesRef s @ ys"
proof (induction fs s rule: enqueueAllA.induct)
  case (2 now d fs s)
  then obtain ys where
    "started (enqueueAllA fs (enqueueA now d s)) = started (enqueueA now d s) @ ys"
    "sourcesRef (enqueueAllA fs (enqueueA now d s)) = sourcesRef (enqueueA now d s) @ ys"
    by auto
  then show ?case by simp
qed simp

lemma enqueueAllA_cursor:
  "nextStartTimeRef (enqueueAllA fs s) = cursorAfter (nextStartTimeRef s) fs"
  by (induction fs s rule: enqueueAllA.induct) simp_all

lemma enqueueAllA_state:
  "robotState (enqueueAllA fs s) = (if fs = [] then robotState s else SPEAKING)"
  by (induction fs s rule: enqueueAllA.induct) simp_all

lemma onmessageA_schedule:
  assumes "\<not> isDeafenedRef s" "decodes m"
  shows "startedSince s (final (onmessageA m s)) =
       schedule_spec (nextStartTimeRef s) (fragments m)"
    "\<not> interrupted m \<Longrightarrow>
       sourcesRef (final (onmessageA m s)) =
         sourcesRef s @ drop (length (started s)) (started (final (onmessageA m s)))"
    "\<not> interrupted m \<Longrightarrow>
       nextStartTimeRef (final (onmessageA m s)) =
         cursorAfter (nextStartTimeRef s) (fragments m)"
    "\<not> interrupted m \<Longrightarrow> fragments m \<noteq> [] \<Longrightarrow>
       robotState (final (onmessageA m s)) = SPEAKING"
proof -
  define s2 where "s2 = toolsA m (turnCompleteA m (transcriptionA m s))"
  define s3 where "s3 = enqueueAllA (fragments m) s2"
  have p: "started s2 = started s" "sourcesRef s2 = sourcesRef s"
    "nextStartTimeRef s2 = nextStartTimeRef s"
    by (simp_all add: s2_def)
  have a: "audioA m s2 = Completed s3"
    using assms(2)
    by (cases "modelTurn m") (simp_all add: audioA_def decodes_def fragments_def s3_def partsA_decoded)
  have f: "final (onmessageA m s) = (if interrupted m then interruptedA s3 else s3)"
    using assms(1) a by (simp add: onmessageA_def s2_def)
  have st: "started (final (onmessageA m s)) = started s3"
    by (simp add: f)
  have "startedSince s (final (onmessageA m s)) = startedSince s2 s3"
    using st p(1) by (simp add: startedSince_def)
  then show "startedSince s (final (onmessageA m s)) =
       schedule_spec (nextStartTimeRef s) (fragments m)"
    by (simp add: s3_def startedSince_enqueueAllA p)
  from enqueueAllA_grows[of "fragments m" s2] obtain ys where
    ys: "started s3 = started s @ ys" "sourcesRef s3 = sourcesRef s @ ys"
    by (auto simp: s3_def p)
  show "sourcesRef (final (onmessageA m s)) =
         sourcesRef s @ drop (length (started s)) (started (final (onmessageA m s)))"
    if "\<not> interrupted m"
    using that ys by (simp add: f)
  show "nextStartTimeRef (final (onmessageA m s)) =
         cursorAfter (nextStartTimeRef s) (fragments m)"
    if "\<not> interrupted m"
    using that by (simp add: f s3_def enqueueAllA_cursor p)
  show "robotState (final (onmessageA m s)) = SPEAKING"
    if "\<not> interrupted m" "fragments m \<noteq> []"
    using that by (simp add: f s3_def enqueueAllA_state)
qed

lemma partsTimed_mono: "partsTimed c ps \<Longrightarrow> c' \<le> c \<Longrightarrow> partsTimed c' ps"
  by (induction c ps rule: partsTimed.induct) auto

lemma schedule_spec_max:
  "partsTimed n ps \<Longrightarrow>
   schedule_spec (max c n) (fragmentsOf ps) = schedule_spec c (fragmentsOf ps)"
proof (induction ps)
  case Nil
  then show ?case by simp
next
  case (Cons p ps)
  show ?case
  proof (cases p)
    case NoInlineData
    with Cons show ?thesis by simp
  next
    case (InlineData dec now)
    show ?thesis
    proof (cases dec)
      case None
      with InlineData Cons.prems have "n \<le> now" "partsTimed now ps" by simp_all
      then have "partsTimed n ps" by (rule_tac partsTimed_mono)
      with Cons.IH None InlineData show ?thesis by simp
    next
      case (Some d)
      with InlineData Cons.prems have "n \<le> now" by simp
      then have "max (max c n) now = max c now" by simp
      with Some InlineData show ?thesis by simp
    qed
  qed
qed

lemma reanchorB_fields:
  "started (reanchorB now t) = started t" "sourcesRef (reanchorB now t) = sourcesRef t"
  "robotState (reanchorB now t) = robotState t"
  "(sourcesRef t = [] \<longrightarrow> nextStartTimeRef t \<le> now) \<Longrightarrow>
     nextStartTimeRef (reanchorB now t) = max (nextStartTimeRef t) now"
  by (auto simp: reanchorB_def)

lemma partsB_schedule:
  "partsTimed c ps \<Longrightarrow> (sourcesRef t = [] \<longrightarrow> nextStartTimeRef t \<le> c) \<Longrightarrow>
   \<exists>ys. started (partsB ps t) = started t @ ys \<and> sourcesRef (partsB ps t) = sourcesRef t @ ys \<and>
     map (\<lambda>x. (startAt x, duration x)) ys = schedule_spec (nextStartTimeRef t) (fragmentsOf ps)"
proof (induction ps t arbitrary: c rule: partsB.induct)
  case (1 s)
  then show ?case by simp
next
  case (2 ps s)
  then show ?case by simp
next
  case (3 dec now ps t)
  then have c: "c \<le> now" "partsTimed now ps" by simp_all
  with "3.prems" have a: "sourcesRef t = [] \<longrightarrow> nextStartTimeRef t \<le> now" by auto
  show ?case
  proof (cases dec)
    case None
    define t' where "t' = enqueueB now dec t"
    have t': "started t' = started t" "sourcesRef t' = sourcesRef t"
      "nextStartTimeRef t' = max (nextStartTimeRef t) now"
      using a None by (simp_all add: t'_def enqueueB_def reanchorB_fields)
    then have "sourcesRef t' = [] \<longrightarrow> nextStartTimeRef t' \<le> now" using a by auto
    from "3.IH"[OF c(2)] this obtain ys where
      "started (partsB ps t') = started t' @ ys" "sourcesRef (partsB ps t') = sourcesRef t' @ ys"
      "map (\<lambda>x. (startAt x, duration x)) ys = schedule_spec (nextStartTimeRef t') (fragmentsOf ps)"
      by (auto simp: t'_def)
    with t' None schedule_spec_max[OF c(2), of "nextStartTimeRef t"] show ?thesis
      by (simp add: t'_def)
  next
    case (Some d)
    note e = enqueueB_Some[OF a, of d]
    have "sourcesRef (enqueueB now (Some d) t) = [] \<longrightarrow>
        nextStartTimeRef (enqueueB now (Some d) t) \<le> now"
      by (simp add: e)
    from "3.IH"[OF c(2)] this Some obtain ys where
      "started (partsB ps (enqueueB now (Some d) t)) = started (enqueueB now (Some d) t) @ ys"
      "sourcesRef (partsB ps (enqueueB now (Some d) t)) = sourcesRef (enqueueB now (Some d) t) @ ys"
      "map (\<lambda>x. (startAt x, duration x)) ys =
         schedule_spec (nextStartTimeRef (enqueueB now (Some d) t)) (fragmentsOf ps)"
      by auto
    with Some show ?thesis by (simp add: e)
  qed
qed

lemma partsB_cursorAfter:
  "list_all partDecodes ps \<Longrightarrow> partsTimed c ps \<Longrightarrow>
   (sourcesRef t = [] \<longrightarrow> nextStartTimeRef t \<le> c) \<Longrightarrow>
   nextStartTimeRef (partsB ps t) = cursorAfter (nextStartTimeRef t) (fragmentsOf ps)"
proof (induction ps t arbitrary: c rule: partsB.induct)
  case (1 s)
  then show ?case by simp
next
  case (2 ps s)
  then show ?case by simp
next
  case (3 dec now ps t)
  then obtain d where d: "dec = Some d" by (cases dec) simp_all
  from 3 have c: "c \<le> now" "partsTimed now ps" "list_all partDecodes ps" by simp_all
  with "3.prems" have a: "sourcesRef t = [] \<longrightarrow> nextStartTimeRef t \<le> now" by auto
  note e = enqueueB_Some[OF a, of d]
  have "sourcesRef (enqueueB now (Some d) t) = [] \<longrightarrow>
      nextStartTimeRef (enqueueB now (Some d) t) \<le> now"
    by (simp add: e)
  from "3.IH"[OF c(3) c(2)] this d show ?case
    by (simp add: e)
qed

lemma partsB_state:
  "robotState (partsB ps t) = (if fragmentsOf ps = [] then robotState t else SPEAKING)"
proof (induction ps t rule: partsB.induct)
  case (3 dec now ps t)
  then show ?case
    by (cases dec) (simp_all add: enqueueB_def reanchorB_def scheduleB_def Let_def)
qed simp_all

lemma onmessageB_schedule:
  assumes "cursorInv c t" "okB c t clk (MessageB m)"
  shows "startedSince t (onmessageB m t) = schedule_spec (nextStartTimeRef t) (fragments m)"
    "\<not> interrupted m \<Longrightarrow>
       sourcesRef (onmessageB m t) =
         sourcesRef t @ drop (length (started t)) (started (onmessageB m t))"
    "\<not> interrupted m \<Longrightarrow> decodes m \<Longrightarrow>
       nextStartTimeRef (onmessageB m t) = cursorAfter (nextStartTimeRef t) (fragments m)"
    "\<not> interrupted m \<Longrightarrow> fragments m \<noteq> [] \<Longrightarrow> robotState (onmessageB m t) = SPEAKING"
proof -
  define t2 where "t2 = toolsB m t"
  define t3 where "t3 = audioB m t2"
  have p: "started t2 = started t" "sourcesRef t2 = sourcesRef t"
    "nextStartTimeRef t2 = nextStartTimeRef t"
    by (simp_all add: t2_def)
  from assms have ok: "c \<le> clk" "case modelTurn m of None \<Rightarrow> True | Some ps \<Rightarrow> partsTimed clk ps"
    by simp_all
  from assms(1) ok(1) have e: "sourcesRef t2 = [] \<longrightarrow> nextStartTimeRef t2 \<le> clk"
    using cursorInv_empty[of c t] by (auto simp: p)
  have f: "onmessageB m t =
      turnCompleteB m (transcriptionB m (if interrupted m then interruptedB t3 else t3))"
    by (simp add: onmessageB_def t3_def t2_def Let_def)
  have "\<exists>ys. started t3 = started t2 @ ys \<and> sourcesRef t3 = sourcesRef t2 @ ys \<and>
     map (\<lambda>x. (startAt x, duration x)) ys = schedule_spec (nextStartTimeRef t2) (fragments m)"
  proof (cases "modelTurn m")
    case None
    then show ?thesis by (simp add: t3_def audioB_def fragments_def)
  next
    case (Some ps)
    with ok have "partsTimed clk ps" by simp
    from partsB_schedule[OF this e] Some show ?thesis
      by (simp add: t3_def audioB_def fragments_def)
  qed
  then obtain ys where ys: "started t3 = started t @ ys" "sourcesRef t3 = sourcesRef t @ ys"
    "map (\<lambda>x. (startAt x, duration x)) ys = schedule_spec (nextStartTimeRef t) (fragments m)"
    by (auto simp: p)
  have st: "started (onmessageB m t) = started t3"
    by (simp add: f)
  with ys show "startedSince t (onmessageB m t) =
      schedule_spec (nextStartTimeRef t) (fragments m)"
    by (simp add: startedSince_def)
  show "sourcesRef (onmessageB m t) =
         sourcesRef t @ drop (length (started t)) (started (onmessageB m t))"
    if "\<not> interrupted m"
    using that ys by (simp add: f)
  show "nextStartTimeRef (onmessageB m t) = cursorAfter (nextStartTimeRef t) (fragments m)"
    if i: "\<not> interrupted m" and d: "decodes m"
  proof (cases "modelTurn m")
    case None
    with i show ?thesis by (simp add: f t3_def audioB_def fragments_def p)
  next
    case (Some ps)
    with ok d have "partsTimed clk ps" "list_all partDecodes ps" by (simp_all add: decodes_def)
    from partsB_cursorAfter[OF this(2) this(1) e] Some i show ?thesis
      by (simp add: f t3_def audioB_def fragments_def p)
  qed
  show "robotState (onmessageB m t) = SPEAKING"
    if "\<not> interrupted m" "fragments m \<noteq> []"
    using that by (cases "modelTurn m") (simp_all add: f t3_def audioB_def fragments_def partsB_state)
qed

section \<open>The claims\<close>

subsection \<open>C10: a deafened engine discards every inbound message\<close>

text \<open>
  Claim C10. In variant A, while the deafened flag is set, the inbound message handler
  discards every server message in its entirety: the handler returns the state it was
  given, so transcript accumulators, history, mood, the in-flight set, the playback
  cursor and the frames sent (no tool response) are all unchanged, for one message
  and for any sequence of messages.
\<close>

theorem deafened_message_discarded:
  "isDeafenedRef s \<Longrightarrow> onmessageA m s = Completed s \<and> messagesA ms s = s"
proof -
  assume d: "isDeafenedRef s"
  have one: "\<And>m. onmessageA m s = Completed s"
    using d by (simp add: onmessageA_def)
  have "messagesA ms s = s"
    by (induction ms) (simp_all add: one)
  with one show ?thesis by simp
qed

theorem deafened_message_discarded_witness:
  "isDeafenedRef (listeningA\<lparr>isDeafened := True, isDeafenedRef := True\<rparr>) \<and>
   onmessageA (twoBuffers\<lparr>outputTranscription := Some ''Hello'', turnComplete := True,
        toolCall := Some [moodCallA], interrupted := True\<rparr>)
      (listeningA\<lparr>isDeafened := True, isDeafenedRef := True\<rparr>) =
     Completed (listeningA\<lparr>isDeafened := True, isDeafenedRef := True\<rparr>) \<and>
   messagesA [twoBuffers, silentMessage\<lparr>toolCall := Some [moodCallA]\<rparr>]
      (listeningA\<lparr>isDeafened := True, isDeafenedRef := True\<rparr>) =
     listeningA\<lparr>isDeafened := True, isDeafenedRef := True\<rparr>"
  using deafened_message_discarded
    [of "listeningA\<lparr>isDeafened := True, isDeafenedRef := True\<rparr>"
        "twoBuffers\<lparr>outputTranscription := Some ''Hello'', turnComplete := True,
           toolCall := Some [moodCallA], interrupted := True\<rparr>"
        "[twoBuffers, silentMessage\<lparr>toolCall := Some [moodCallA]\<rparr>]"]
  by simp

subsection \<open>C3: interruption\<close>

text \<open>
  Claim C3, as amended. Whenever a message with the interruption flag is handled, in
  the same step every in-flight source is stopped (those in flight before and those
  the same message started), the in-flight set is emptied, the playback cursor is
  reset to zero, the state becomes \<open>LISTENING\<close> and the volume zero. Variant B does so
  for every such message. Variant A does so when the deafened flag is off and the
  audio parts of the message, if any, decode.
\<close>

theorem interruption_clears_playback:
  "(\<not> isDeafenedRef s \<and> interrupted m \<and> decodes m \<longrightarrow>
      (\<exists>s'. onmessageA m s = Completed s' \<and> sourcesRef s' = [] \<and>
         nextStartTimeRef s' = 0 \<and> robotState s' = LISTENING \<and> volume s' = 0 \<and>
         sid ` set (sourcesRef s) \<subseteq> set (stopped s') \<and>
         (\<forall>x \<in> set (started s'). x \<notin> set (started s) \<longrightarrow> sid x \<in> set (stopped s')))) \<and>
   (interrupted m \<longrightarrow>
      sourcesRef (onmessageB m t) = [] \<and> nextStartTimeRef (onmessageB m t) = 0 \<and>
      robotState (onmessageB m t) = LISTENING \<and> volume (onmessageB m t) = 0 \<and>
      sid ` set (sourcesRef t) \<subseteq> set (stopped (onmessageB m t)) \<and>
      (\<forall>x \<in> set (started (onmessageB m t)). x \<notin> set (started t) \<longrightarrow>
          sid x \<in> set (stopped (onmessageB m t))))"
proof (rule conjI; rule impI)
  assume a: "\<not> isDeafenedRef s \<and> interrupted m \<and> decodes m"
  define s2 where "s2 = toolsA m (turnCompleteA m (transcriptionA m s))"
  have s2: "sourcesRef s2 = sourcesRef s" "started s2 = started s"
    by (simp_all add: s2_def)
  from a have "decodes m" by simp
  from audioA_Completed[OF this, of s2] obtain s3 new where
    s3: "audioA m s2 = Completed s3" "sourcesRef s3 = sourcesRef s2 @ new"
        "started s3 = started s2 @ new"
    by auto
  have "onmessageA m s = Completed (interruptedA s3)"
    using a s3(1) by (simp add: onmessageA_def s2_def)
  moreover have "sid ` set (sourcesRef s) \<subseteq> set (stopped (interruptedA s3))"
    using s3 s2 by auto
  moreover have "\<forall>x \<in> set (started (interruptedA s3)).
      x \<notin> set (started s) \<longrightarrow> sid x \<in> set (stopped (interruptedA s3))"
    using s3 s2 by auto
  ultimately show "\<exists>s'. onmessageA m s = Completed s' \<and> sourcesRef s' = [] \<and>
         nextStartTimeRef s' = 0 \<and> robotState s' = LISTENING \<and> volume s' = 0 \<and>
         sid ` set (sourcesRef s) \<subseteq> set (stopped s') \<and>
         (\<forall>x \<in> set (started s'). x \<notin> set (started s) \<longrightarrow> sid x \<in> set (stopped s'))"
    by simp
next
  assume i: "interrupted m"
  define t2 where "t2 = audioB m (toolsB m t)"
  from audioB_facts(3)[of m "toolsB m t"] obtain new where
    new: "sourcesRef t2 = sourcesRef t @ new" "started t2 = started t @ new"
    by (auto simp: t2_def)
  have eq: "onmessageB m t = turnCompleteB m (transcriptionB m (interruptedB t2))"
    using i by (simp add: onmessageB_def t2_def)
  show "sourcesRef (onmessageB m t) = [] \<and> nextStartTimeRef (onmessageB m t) = 0 \<and>
      robotState (onmessageB m t) = LISTENING \<and> volume (onmessageB m t) = 0 \<and>
      sid ` set (sourcesRef t) \<subseteq> set (stopped (onmessageB m t)) \<and>
      (\<forall>x \<in> set (started (onmessageB m t)). x \<notin> set (started t) \<longrightarrow>
          sid x \<in> set (stopped (onmessageB m t)))"
    unfolding eq using new by auto
qed

text \<open>
  The witness interrupts both variants while the two buffers play: the sources 0 and 1
  are stopped.
\<close>

theorem interruption_clears_playback_witness:
  "\<not> isDeafenedRef playingA \<and> interrupted (silentMessage\<lparr>interrupted := True\<rparr>) \<and>
   decodes (silentMessage\<lparr>interrupted := True\<rparr>) \<and>
   map sid (sourcesRef playingA) = [0, 1] \<and> nextStartTimeRef playingA = 8 \<and>
   sourcesRef (final (onmessageA (silentMessage\<lparr>interrupted := True\<rparr>) playingA)) = [] \<and>
   nextStartTimeRef (final (onmessageA (silentMessage\<lparr>interrupted := True\<rparr>) playingA)) = 0 \<and>
   stopped (final (onmessageA (silentMessage\<lparr>interrupted := True\<rparr>) playingA)) = [0, 1] \<and>
   map sid (sourcesRef playingB) = [0, 1] \<and>
   sourcesRef (onmessageB (silentMessage\<lparr>interrupted := True\<rparr>) playingB) = [] \<and>
   robotState (onmessageB (silentMessage\<lparr>interrupted := True\<rparr>) playingB) = LISTENING \<and>
   stopped (onmessageB (silentMessage\<lparr>interrupted := True\<rparr>) playingB) = [0, 1]"
  using interruption_clears_playback
    [of playingA "silentMessage\<lparr>interrupted := True\<rparr>" playingB]
  by (simp add: sample_defs handler_defs)

text \<open>
  The claim as the spec states it fails in variant A: a deafened engine discards the
  interruption as it discards every message, and the cursor keeps its value. Here the
  engine is deafened while the two buffers play (the cursor is at 8), then the
  interruption arrives.
\<close>

theorem interruption_while_deafened_counterexample:
  "interrupted (silentMessage\<lparr>interrupted := True\<rparr>) \<and>
   nextStartTimeRef
     (final (onmessageA (silentMessage\<lparr>interrupted := True\<rparr>) (toggleDeafen playingA))) = 8"
  by (simp add: sample_defs handler_defs toggleDeafen_def effect_isDeafened_def)

subsection \<open>C2: tool calls\<close>

text \<open>
  Claim C2, as amended. For the function calls of a tool-call message, one tool
  response is sent for each call whose name the engine handles, in the order of the
  calls and with the id and name of the call, and nothing is sent for a call of any
  other name. Variant A handles \<^verbatim>\<open>update_spark_mood\<close>, and only while the deafened flag
  is off; variant B handles \<^verbatim>\<open>update_sparky_mood\<close> and \<^verbatim>\<open>report_faces\<close>. No other
  frame is sent by the message handler.
\<close>

theorem tool_calls_answered:
  "(\<not> isDeafenedRef s \<and> toolCall m = Some fcs \<longrightarrow>
      sent (final (onmessageA m s)) =
        sent s @ map (\<lambda>fc. ToolResponse (fc_id fc) (fc_name fc) ''Mood synced.'')
                   (filter (\<lambda>fc. fc_name fc = ''update_spark_mood'') fcs)) \<and>
   (toolCall m = Some fcs \<longrightarrow>
      sent (onmessageB m t) =
        sent t @ map (\<lambda>fc. ToolResponse (fc_id fc) (fc_name fc)
                        (if fc_name fc = ''update_sparky_mood'' then ''Mood updated''
                         else ''Tracking '' @ string_of_nat (length (fc_faces fc)) @ '' faces.''))
                   (filter (\<lambda>fc. fc_name fc = ''update_sparky_mood'' \<or>
                                 fc_name fc = ''report_faces'') fcs))"
proof (intro conjI impI)
  assume a: "\<not> isDeafenedRef s \<and> toolCall m = Some fcs"
  define s2 where "s2 = toolsA m (turnCompleteA m (transcriptionA m s))"
  have s2: "sent s2 =
      sent s @ map (\<lambda>fc. ToolResponse (fc_id fc) (fc_name fc) ''Mood synced.'')
                 (filter (\<lambda>fc. fc_name fc = ''update_spark_mood'') fcs)"
    using a by (simp add: s2_def toolsA_def toolCallsA_sent)
  have au: "sent (final (audioA m s2)) = sent s2"
    by (simp add: audioA_def partsA_sent split: option.splits)
  have "sent (final (onmessageA m s)) = sent (final (audioA m s2))"
    using a by (cases "audioA m s2") (simp_all add: onmessageA_def s2_def)
  with au s2 show "sent (final (onmessageA m s)) =
        sent s @ map (\<lambda>fc. ToolResponse (fc_id fc) (fc_name fc) ''Mood synced.'')
                   (filter (\<lambda>fc. fc_name fc = ''update_spark_mood'') fcs)"
    by simp
next
  assume "toolCall m = Some fcs"
  then show "sent (onmessageB m t) =
        sent t @ map (\<lambda>fc. ToolResponse (fc_id fc) (fc_name fc)
                        (if fc_name fc = ''update_sparky_mood'' then ''Mood updated''
                         else ''Tracking '' @ string_of_nat (length (fc_faces fc)) @ '' faces.''))
                   (filter (\<lambda>fc. fc_name fc = ''update_sparky_mood'' \<or>
                                 fc_name fc = ''report_faces'') fcs)"
    by (simp add: onmessageB_def Let_def audioB_facts toolsB_def toolCallsB_sent)
qed

theorem tool_calls_answered_witness:
  "\<not> isDeafenedRef listeningA \<and>
   toolCall (silentMessage\<lparr>toolCall := Some [moodCallA, unknownCall, moodCallB]\<rparr>) =
     Some [moodCallA, unknownCall, moodCallB] \<and>
   sent (final (onmessageA (silentMessage\<lparr>toolCall := Some [moodCallA, unknownCall, moodCallB]\<rparr>)
      listeningA)) = [ToolResponse ''call-2'' ''update_spark_mood'' ''Mood synced.''] \<and>
   sent (onmessageB (silentMessage\<lparr>toolCall := Some [moodCallA, unknownCall, moodCallB]\<rparr>)
      listeningB) = [ToolResponse ''call-3'' ''update_sparky_mood'' ''Mood updated'']"
  using tool_calls_answered
    [of listeningA "silentMessage\<lparr>toolCall := Some [moodCallA, unknownCall, moodCallB]\<rparr>"
        "[moodCallA, unknownCall, moodCallB]" listeningB]
  by (simp add: sample_defs)

text \<open>
  The claim as the spec states it fails in both variants: a call of a name the engine
  does not handle gets no response at all.
\<close>

theorem unknown_tool_call_counterexample:
  "toolCall (silentMessage\<lparr>toolCall := Some [unknownCall]\<rparr>) = Some [unknownCall] \<and>
   sent (final (onmessageA (silentMessage\<lparr>toolCall := Some [unknownCall]\<rparr>) listeningA)) = [] \<and>
   sent (onmessageB (silentMessage\<lparr>toolCall := Some [unknownCall]\<rparr>) listeningB) = []"
  by (simp add: sample_defs handler_defs)

subsection \<open>C9: deafening\<close>

text \<open>
  Claim C9 says that from the moment the deafen flag is turned on, at any point, no
  audio renders until it is turned off. Variant A breaks this for the greeting:
  \<^verbatim>\<open>onopen\<close> calls \<^verbatim>\<open>speakText\<close>, which reads the flag before it awaits the speech
  request and not after. In the run below the session is woken and opens, the user
  deafens the engine while the request is pending, and the answer (a buffer of 3
  seconds, at clock reading 6) arrives: the deafened engine starts the source, holds it
  in flight and shows \<open>SPEAKING\<close>.
\<close>

theorem greeting_plays_while_deafened:
  "isDeafenedRef (runA [StartSession grantedEnv, Open, ToggleDeafen] initialA) \<and>
   ttsPending (runA [StartSession grantedEnv, Open, ToggleDeafen] initialA) = 1 \<and>
   started (runA [StartSession grantedEnv, Open, ToggleDeafen] initialA) = [] \<and>
   isDeafenedRef
     (runA [StartSession grantedEnv, Open, ToggleDeafen, TtsResume (Some 3) 6] initialA) \<and>
   started (runA [StartSession grantedEnv, Open, ToggleDeafen, TtsResume (Some 3) 6] initialA) =
     [\<lparr>sid = 0, startAt = 6, duration = 3\<rparr>] \<and>
   sourcesRef (runA [StartSession grantedEnv, Open, ToggleDeafen, TtsResume (Some 3) 6] initialA) =
     [\<lparr>sid = 0, startAt = 6, duration = 3\<rparr>] \<and>
   robotState (runA [StartSession grantedEnv, Open, ToggleDeafen, TtsResume (Some 3) 6] initialA) =
     SPEAKING"
  unfolding runA.simps wokenA
  by (simp add: stepA_def effectsA_def onopenA_def speakTextAsked_def speakTextResume_def
      toggleDeafen_def effect_isDeafened_def stopSources_def addLog_def enqueueA_def
      GREETING_TEXT_def initialA_def Let_def)

text \<open>
  The rest of the claim holds. Turning the flag on (the button, then the effect of the
  changed flag), also in the middle of playback, stops every in-flight source, empties
  the in-flight set, sets the state to \<open>LISTENING\<close> and the volume to zero. From then
  on, whatever events of the session follow short of the deafen button (inbound
  messages with audio, ended sources, microphone frames, the mute button, open, close,
  error, shutdown and wake-up), no source is started, the in-flight set stays empty
  and the flag stays on. The same holds with the answers to greeting speech requests
  among the events when no such request is pending as the flag is set, since none is
  made while deafened.
\<close>

lemma deafen_silences:
  "isDeafenedRef (toggleDeafen s) = (\<not> isDeafened s) \<and>
   (\<not> isDeafened s \<longrightarrow>
     sourcesRef (toggleDeafen s) = [] \<and>
     stopped (toggleDeafen s) = stopped s @ map sid (sourcesRef s) \<and>
     robotState (toggleDeafen s) = LISTENING \<and> volume (toggleDeafen s) = 0 \<and>
     (\<forall>es. list_all keepsDeafened es \<and> (ttsPending s = 0 \<or> \<not> list_ex speechAnswer es) \<longrightarrow>
        started (runA es (toggleDeafen s)) = started s \<and>
        sourcesRef (runA es (toggleDeafen s)) = [] \<and>
        isDeafenedRef (runA es (toggleDeafen s))))"
proof -
  have 1: "isDeafenedRef (toggleDeafen s) = (\<not> isDeafened s)"
    by (simp add: toggleDeafen_def effect_isDeafened_def stopSources_def Let_def)
  have p: "ttsPending (toggleDeafen s) = ttsPending s"
    by (simp add: toggleDeafen_def effect_isDeafened_def stopSources_def Let_def)
  {
    assume d: "\<not> isDeafened s"
    have 2: "sourcesRef (toggleDeafen s) = []" "started (toggleDeafen s) = started s"
      "stopped (toggleDeafen s) = stopped s @ map sid (sourcesRef s)"
      "robotState (toggleDeafen s) = LISTENING" "volume (toggleDeafen s) = 0"
      using d by (simp_all add: toggleDeafen_def effect_isDeafened_def stopSources_def Let_def)
    have 3: "started (runA es (toggleDeafen s)) = started s \<and>
        sourcesRef (runA es (toggleDeafen s)) = [] \<and>
        isDeafenedRef (runA es (toggleDeafen s))"
      if "list_all keepsDeafened es \<and> (ttsPending s = 0 \<or> \<not> list_ex speechAnswer es)" for es
      using quiet_runA[of es "toggleDeafen s"] that p 1 2 d by (simp add: quiet_def)
    note 2 3
  }
  with 1 show ?thesis by blast
qed

text \<open>
  An example: the engine is deafened while the two buffers play; then a message with
  two more buffers arrives, source 0 ends, a microphone frame is processed, an answer
  to a speech request is awaited in vain and the session is shut down. Sources 0 and 1
  were stopped and nothing else was started.
\<close>

lemma deafen_silences_example:
  "\<not> isDeafened playingA \<and> ttsPending playingA = 0 \<and>
   map sid (sourcesRef playingA) = [0, 1] \<and> robotState playingA = SPEAKING \<and>
   sourcesRef (toggleDeafen playingA) = [] \<and> stopped (toggleDeafen playingA) = [0, 1] \<and>
   robotState (toggleDeafen playingA) = LISTENING \<and>
   list_all keepsDeafened
     [Message twoBuffers, Ended 0, AudioProcess [1, -1], TtsResume (Some 3) 6, StopSession] \<and>
   started (runA
      [Message twoBuffers, Ended 0, AudioProcess [1, -1], TtsResume (Some 3) 6, StopSession]
      (toggleDeafen playingA)) = started playingA \<and>
   sourcesRef (runA
      [Message twoBuffers, Ended 0, AudioProcess [1, -1], TtsResume (Some 3) 6, StopSession]
      (toggleDeafen playingA)) = []"
proof -
  have h: "\<not> isDeafened playingA" "ttsPending playingA = 0"
    by (simp_all add: sample_defs handler_defs)
  have l: "list_all keepsDeafened
     [Message twoBuffers, Ended 0, AudioProcess [1, -1], TtsResume (Some 3) 6, StopSession]"
    by simp
  from deafen_silences[of playingA] h l
  have "started (runA
          [Message twoBuffers, Ended 0, AudioProcess [1, -1], TtsResume (Some 3) 6, StopSession]
          (toggleDeafen playingA)) = started playingA \<and>
        sourcesRef (runA
          [Message twoBuffers, Ended 0, AudioProcess [1, -1], TtsResume (Some 3) 6, StopSession]
          (toggleDeafen playingA)) = []"
    by blast
  moreover have "map sid (sourcesRef playingA) = [0, 1] \<and> robotState playingA = SPEAKING \<and>
      sourcesRef (toggleDeafen playingA) = [] \<and> stopped (toggleDeafen playingA) = [0, 1] \<and>
      robotState (toggleDeafen playingA) = LISTENING"
    by (simp add: sample_defs handler_defs toggleDeafen_def effect_isDeafened_def)
  ultimately show ?thesis
    using h l by blast
qed

subsection \<open>C4: muting\<close>

text \<open>
  Claim C4, as amended. In variant A, for every microphone frame processed while the
  muted flag is set and the state is not \<open>IDLE\<close>, the frame is still read from the input
  buffer, but no sum of squares (hence no RMS) is computed; the volume is set to
  exactly zero and no frame is encoded or sent. For every frame processed while the
  flag is off and the state is not \<open>IDLE\<close>, the sum of squares is computed and one audio
  chunk is sent; the volume is set from the RMS when the state is \<open>LISTENING\<close>.
\<close>

theorem muted_frame_not_sent:
  "robotStateRef s \<noteq> IDLE \<Longrightarrow>
   (isMutedRef s \<longrightarrow>
      snd (onaudioprocessA frame s) = \<lparr>l_inputData = Some frame, l_sum = None\<rparr> \<and>
      fst (onaudioprocessA frame s) = s\<lparr>volume := 0\<rparr> \<and>
      volume (fst (onaudioprocessA frame s)) = 0 \<and>
      sent (fst (onaudioprocessA frame s)) = sent s) \<and>
   (\<not> isMutedRef s \<longrightarrow>
      snd (onaudioprocessA frame s) =
        \<lparr>l_inputData = Some frame, l_sum = Some (sumSquares frame)\<rparr> \<and>
      sent (fst (onaudioprocessA frame s)) = sent s @ [pcmBlob frame] \<and>
      volume (fst (onaudioprocessA frame s)) =
        (if robotStateRef s = LISTENING
         then sqrt (sumSquares frame / real (length frame)) * 2.5 else volume s))"
  by (simp add: onaudioprocessA_def Let_def)

theorem muted_frame_not_sent_witness:
  "robotStateRef mutedA \<noteq> IDLE \<and> isMutedRef mutedA \<and>
   snd (onaudioprocessA [1, -1] mutedA) = \<lparr>l_inputData = Some [1, -1], l_sum = None\<rparr> \<and>
   volume (fst (onaudioprocessA [1, -1] (mutedA\<lparr>volume := 1\<rparr>))) = 0 \<and>
   sent (fst (onaudioprocessA [1, -1] mutedA)) = [] \<and>
   robotStateRef listeningA \<noteq> IDLE \<and> \<not> isMutedRef listeningA \<and>
   snd (onaudioprocessA [1, -1] listeningA) = \<lparr>l_inputData = Some [1, -1], l_sum = Some 2\<rparr> \<and>
   sent (fst (onaudioprocessA [1, -1] listeningA)) =
     [RealtimeInput (PcmData [- 32768, - 32768]) ''audio/pcm;rate=16000''] \<and>
   volume (fst (onaudioprocessA [1, -1] listeningA)) = 5 / 2"
  using muted_frame_not_sent[of mutedA "[1, -1]"]
    muted_frame_not_sent[of "mutedA\<lparr>volume := 1\<rparr>" "[1, -1]"]
    muted_frame_not_sent[of listeningA "[1, -1]"]
  by (simp add: mutedA_def toggleMute_def effect_isMuted_def sample_defs onaudioprocessA_def
      pcmBlob_def toInt16_def sumSquares_def Let_def)

text \<open>
  The claim as the spec states it says the RMS is still computed while muted. The
  muted branch of the handler only sets the volume to zero: the sum of squares is
  never formed.
\<close>

theorem muted_rms_counterexample:
  "robotStateRef mutedA \<noteq> IDLE \<and> isMutedRef mutedA \<and>
   l_inputData (snd (onaudioprocessA [1, -1] mutedA)) = Some [1, -1] \<and>
   l_sum (snd (onaudioprocessA [1, -1] mutedA)) = None"
  by (simp add: mutedA_def toggleMute_def effect_isMuted_def sample_defs onaudioprocessA_def)

subsection \<open>C6: closure of the channel\<close>

text \<open>
  Claim C6, as amended. When the channel closes, neither variant reconnects, whatever
  the code and whether or not the session is active: no retry is scheduled and the
  engine does not go back to \<open>CONNECTING\<close>. On a closure with a code other than 1000,
  variant A, when its ref says the session is active, logs and shows the warning ``An
  unexpected error occurred.'' and leaves the state as it is; variant B, when the value
  of \<^verbatim>\<open>isActive\<close> that its handler holds is true, goes to \<open>ERROR\<close> at once with a critical
  error descriptor. A closure with code 1000 sets the state to \<open>IDLE\<close> and the session
  inactive; so does, in variant A, a closure while the ref says the session is not
  active.

  The theorem also records which value the handler of variant B holds: the one that
  \<^verbatim>\<open>isActive\<close> had when the button that opened the channel was clicked, kept through
  every later event; with that value false the handler takes the branch of the normal
  closure.
\<close>

theorem close_not_retried:
  "(code \<noteq> 1000 \<and> isActiveRef s \<longrightarrow>
      oncloseA code s =
        addLog System ''ERROR: An unexpected error occurred.''
          (s\<lparr>errorDetail :=
               Some \<lparr>message = ''An unexpected error occurred.'', severity = Warning\<rparr>\<rparr>) \<and>
      robotState (oncloseA code s) = robotState s \<and>
      timeouts (oncloseA code s) = timeouts s) \<and>
   (\<not> (code \<noteq> 1000 \<and> isActiveRef s) \<longrightarrow>
      oncloseA code s = s\<lparr>robotState := IDLE, isActive := False\<rparr>) \<and>
   timeouts (stepB (CloseB code) t) = timeouts t \<and>
   robotState (stepB (CloseB code) t) \<noteq> CONNECTING \<and>
   (code \<noteq> 1000 \<and> isActiveClosure t \<longrightarrow>
      robotState (stepB (CloseB code) t) = ERROR \<and>
      errorDetail (stepB (CloseB code) t) =
        Some \<lparr>message = ''Activation aborted (Code: '' @ string_of_nat code @
          ''). This often means the API key is missing or the project billing is inactive.'',
          severity = Critical\<rparr>) \<and>
   (\<not> (code \<noteq> 1000 \<and> isActiveClosure t) \<longrightarrow>
      stepB (CloseB code) t =
        t\<lparr>robotState := IDLE, robotStateRef := IDLE, isActive := False,
          currentInputRef := currentInput t, currentOutputRef := currentOutput t\<rparr>) \<and>
   isActiveClosure (stepB e t) = (if startsB e then isActive t else isActiveClosure t)"
proof -
  have a: "oncloseA code s =
        addLog System ''ERROR: An unexpected error occurred.''
          (s\<lparr>errorDetail :=
               Some \<lparr>message = ''An unexpected error occurred.'', severity = Warning\<rparr>\<rparr>) \<and>
      robotState (oncloseA code s) = robotState s \<and>
      timeouts (oncloseA code s) = timeouts s" if "code \<noteq> 1000 \<and> isActiveRef s"
    using that by (simp add: oncloseA_abnormal addLog_def)
  have b: "oncloseA code s = s\<lparr>robotState := IDLE, isActive := False\<rparr>"
    if "\<not> (code \<noteq> 1000 \<and> isActiveRef s)"
    using that by (auto simp: oncloseA_def)
  have c: "timeouts (stepB (CloseB code) t) = timeouts t"
    "robotState (stepB (CloseB code) t) \<noteq> CONNECTING"
    by (simp_all add: stepB_def effectsB_def oncloseB_def)
  have d: "robotState (stepB (CloseB code) t) = ERROR \<and>
      errorDetail (stepB (CloseB code) t) =
        Some \<lparr>message = ''Activation aborted (Code: '' @ string_of_nat code @
          ''). This often means the API key is missing or the project billing is inactive.'',
          severity = Critical\<rparr>"
    if "code \<noteq> 1000 \<and> isActiveClosure t"
    using that by (simp add: stepB_def effectsB_def oncloseB_def)
  have e: "stepB (CloseB code) t =
        t\<lparr>robotState := IDLE, robotStateRef := IDLE, isActive := False,
          currentInputRef := currentInput t, currentOutputRef := currentOutput t\<rparr>"
    if "\<not> (code \<noteq> 1000 \<and> isActiveClosure t)"
    using that by (auto simp: stepB_def effectsB_def oncloseB_def)
  from a b c d e stepB_closure[of e t] show ?thesis by blast
qed

text \<open>
  The witness closes three sessions with code 1006 and with code 1000: the listening
  session of variant A, and in variant B the re-synced session, whose handler holds
  \<^verbatim>\<open>true\<close>, and a session just started by the wake button, whose handler holds \<^verbatim>\<open>false\<close>.
\<close>

theorem close_not_retried_witness:
  "(1006::nat) \<noteq> 1000 \<and> isActiveRef listeningA \<and>
   robotState (oncloseA 1006 listeningA) = LISTENING \<and>
   errorDetail (oncloseA 1006 listeningA) =
     Some \<lparr>message = ''An unexpected error occurred.'', severity = Warning\<rparr> \<and>
   timeouts (oncloseA 1006 listeningA) = [] \<and>
   robotState (oncloseA 1000 listeningA) = IDLE \<and> \<not> isActive (oncloseA 1000 listeningA) \<and>
   isActiveClosure resyncedB \<and>
   robotState (stepB (CloseB 1006) resyncedB) = ERROR \<and>
   timeouts (stepB (CloseB 1006) resyncedB) = [] \<and>
   robotState (stepB (CloseB 1000) resyncedB) = IDLE \<and>
   \<not> isActive (stepB (CloseB 1000) resyncedB) \<and>
   startsB (StartSessionB grantedEnv) \<and> \<not> isActive readyB \<and>
   \<not> isActiveClosure (stepB (StartSessionB grantedEnv) readyB) \<and>
   \<not> startsB OpenB \<and>
   \<not> isActiveClosure (stepB OpenB (stepB (StartSessionB grantedEnv) readyB))"
proof -
  have h: "isActiveRef listeningA" "isActiveClosure resyncedB" "\<not> isActive readyB"
    "timeouts resyncedB = []" "timeouts listeningA = []" "robotState listeningA = LISTENING"
    by (simp_all add: resyncedB_def readyB_def sample_defs)
  from close_not_retried[of 1006 listeningA resyncedB "StartSessionB grantedEnv"] h
  have 1: "robotState (oncloseA 1006 listeningA) = LISTENING \<and>
      timeouts (oncloseA 1006 listeningA) = [] \<and>
      robotState (stepB (CloseB 1006) resyncedB) = ERROR \<and>
      timeouts (stepB (CloseB 1006) resyncedB) = []"
    by (simp add: addLog_def)
  from close_not_retried[of 1006 listeningA resyncedB "StartSessionB grantedEnv"] h
  have 2: "errorDetail (oncloseA 1006 listeningA) =
      Some \<lparr>message = ''An unexpected error occurred.'', severity = Warning\<rparr>"
    by (simp add: addLog_def)
  from close_not_retried[of 1000 listeningA resyncedB OpenB]
  have 3: "robotState (oncloseA 1000 listeningA) = IDLE \<and> \<not> isActive (oncloseA 1000 listeningA) \<and>
      robotState (stepB (CloseB 1000) resyncedB) = IDLE \<and>
      \<not> isActive (stepB (CloseB 1000) resyncedB)"
    by simp
  from close_not_retried[of 1006 listeningA readyB "StartSessionB grantedEnv"] h
  have 4: "\<not> isActiveClosure (stepB (StartSessionB grantedEnv) readyB)"
    by simp
  from close_not_retried[of 1006 listeningA "stepB (StartSessionB grantedEnv) readyB" OpenB] 4
  have 5: "\<not> isActiveClosure (stepB OpenB (stepB (StartSessionB grantedEnv) readyB))"
    by simp
  from 1 2 3 4 5 h show ?thesis by simp
qed

text \<open>
  The claim as the spec states it says an abnormal closure is retried like a failed
  \<^verbatim>\<open>open()\<close>. After the closure with code 1006 of an active session, variant A is still
  in \<open>LISTENING\<close> and the re-synced variant B in \<open>ERROR\<close>, neither in \<open>CONNECTING\<close>, and no
  timer has been set.
\<close>

theorem abnormal_close_counterexample:
  "isActiveRef listeningA \<and>
   robotState (oncloseA 1006 listeningA) = LISTENING \<and>
   timeouts (oncloseA 1006 listeningA) = [] \<and>
   isActive resyncedB \<and> isActiveClosure resyncedB \<and>
   robotState (stepB (CloseB 1006) resyncedB) = ERROR \<and>
   timeouts (stepB (CloseB 1006) resyncedB) = []"
proof -
  have "isActiveRef listeningA"
    by (simp add: sample_defs)
  then have "oncloseA 1006 listeningA =
      addLog System ''ERROR: An unexpected error occurred.''
        (listeningA\<lparr>errorDetail :=
           Some \<lparr>message = ''An unexpected error occurred.'', severity = Warning\<rparr>\<rparr>)"
    by (simp add: oncloseA_abnormal)
  then show ?thesis
    by (simp add: sample_defs addLog_def stepB_def effectsB_def oncloseB_def resyncedB_def)
qed

text \<open>
  The session that the wake button starts is active, but its handler holds the value
  \<^verbatim>\<open>false\<close> that \<^verbatim>\<open>isActive\<close> had at the click (variant A reads the ref instead): its
  closure with code 1006 ends in \<open>IDLE\<close> with no error shown.
\<close>

lemma woken_session_closes_silently:
  "isActive listeningB \<and> \<not> isActiveClosure listeningB \<and>
   robotState (stepB (CloseB 1006) listeningB) = IDLE \<and>
   errorDetail (stepB (CloseB 1006) listeningB) = None \<and>
   \<not> isActive (stepB (CloseB 1006) listeningB)"
  by (simp add: sample_defs stepB_def effectsB_def oncloseB_def)

subsection \<open>C5: failure of the activation\<close>

text \<open>
  Claim C5, as amended. When every connection attempt fails, variant B retries three
  times, after 1000, 2000 and 4000 milliseconds, each plus \<^verbatim>\<open>Math.random() * 500\<close>;
  after the fourth failure the state is \<open>ERROR\<close>, a critical error descriptor is set and
  no further retry is scheduled. Variant A retries twice, each after a fixed 2000
  milliseconds; after the third failure \<^verbatim>\<open>handleError\<close> sets an error descriptor and no
  further retry is scheduled, and the state is \<open>ERROR\<close> only when the error is
  classified critical (otherwise it stays \<open>CONNECTING\<close>). In both, the chain of retries
  ends: \<open>runStartA\<close> and \<open>runStartB\<close> are total.
\<close>

theorem open_failure_retries:
  "apiKey env \<and> connectResult env 0 = Some e0 \<and> connectResult env 1 = Some e1 \<and>
   connectResult env 2 = Some e2 \<longrightarrow>
   (audioCtxResult env = None \<longrightarrow>
      timeouts (runStartA env True 0 s) = timeouts s @ [(2000, 1), (2000, 2)] \<and>
      errorDetail (runStartA env True 0 s) =
        Some \<lparr>message = fst (classifyA e2), severity = snd (classifyA e2)\<rparr> \<and>
      robotState (runStartA env True 0 s) =
        (if snd (classifyA e2) = Critical then ERROR else CONNECTING)) \<and>
   (connectResult env 3 = Some e3 \<longrightarrow>
      timeouts (runStartB env True 0 t) =
        timeouts t @ [(1000 + random env 0 * 500, 1), (2000 + random env 1 * 500, 2),
                      (4000 + random env 2 * 500, 3)] \<and>
      errorDetail (runStartB env True 0 t) =
        Some \<lparr>message = ''Neural handshake failed: '' @
                or_else (err_message e3) ''The service is unavailable'' @
                ''. Check environment variables for API_KEY.'', severity = Critical\<rparr> \<and>
      robotState (runStartB env True 0 t) = ERROR)"
proof (intro impI conjI)
  assume a: "apiKey env \<and> connectResult env 0 = Some e0 \<and> connectResult env 1 = Some e1 \<and>
   connectResult env 2 = Some e2" and c: "audioCtxResult env = None"
  note runStartA_all_fail[of env e0 e1 e2 s]
  with a c have r: "runStartA env True 0 s =
     handleErrorA e2
       (s\<lparr>timeouts := timeouts s @ [(2000, 1), (2000, 2)], outputAudioCtxRef := True,
          robotState := CONNECTING, errorDetail := None, isActive := True,
          nextStartTimeRef := 0\<rparr>)"
    by simp
  show "timeouts (runStartA env True 0 s) = timeouts s @ [(2000, 1), (2000, 2)]"
    unfolding r by (simp add: handleErrorA_fields)
  show "errorDetail (runStartA env True 0 s) =
        Some \<lparr>message = fst (classifyA e2), severity = snd (classifyA e2)\<rparr>"
    unfolding r by (simp add: handleErrorA_fields)
  show "robotState (runStartA env True 0 s) =
        (if snd (classifyA e2) = Critical then ERROR else CONNECTING)"
    unfolding r by (simp add: handleErrorA_fields)
next
  assume a: "apiKey env \<and> connectResult env 0 = Some e0 \<and> connectResult env 1 = Some e1 \<and>
   connectResult env 2 = Some e2" and c: "connectResult env 3 = Some e3"
  note r = runStartB_all_fail[of env e0 e1 e2 e3 t]
  show "timeouts (runStartB env True 0 t) =
        timeouts t @ [(1000 + random env 0 * 500, 1), (2000 + random env 1 * 500, 2),
                      (4000 + random env 2 * 500, 3)]"
    using a c by (simp add: r)
  show "errorDetail (runStartB env True 0 t) =
        Some \<lparr>message = ''Neural handshake failed: '' @
                or_else (err_message e3) ''The service is unavailable'' @
                ''. Check environment variables for API_KEY.'', severity = Critical\<rparr>"
    using a c by (simp add: r)
  show "robotState (runStartB env True 0 t) = ERROR"
    using a c by (simp add: r)
qed

lemma classifyA_plain:
  "classifyA \<lparr>err_name = ''Error'', err_message = ''WebSocket closed''\<rparr> =
     (''An unexpected error occurred.'', Warning)"
  by (simp add: classifyA_def)

theorem open_failure_retries_witness:
  "apiKey failingEnv \<and> audioCtxResult failingEnv = None \<and>
   connectResult failingEnv 3 = Some \<lparr>err_name = ''Error'', err_message = ''WebSocket closed''\<rparr> \<and>
   timeouts (runStartA failingEnv True 0 readyA) = [(2000, 1), (2000, 2)] \<and>
   errorDetail (runStartA failingEnv True 0 readyA) =
     Some \<lparr>message = ''An unexpected error occurred.'', severity = Warning\<rparr> \<and>
   robotState (runStartA failingEnv True 0 readyA) = CONNECTING \<and>
   timeouts (runStartB failingEnv True 0 readyB) = [(1250, 1), (2250, 2), (4250, 3)] \<and>
   robotState (runStartB failingEnv True 0 readyB) = ERROR"
  using open_failure_retries
    [of failingEnv "\<lparr>err_name = ''Error'', err_message = ''WebSocket closed''\<rparr>"
        "\<lparr>err_name = ''Error'', err_message = ''WebSocket closed''\<rparr>"
        "\<lparr>err_name = ''Error'', err_message = ''WebSocket closed''\<rparr>" readyA
        "\<lparr>err_name = ''Error'', err_message = ''WebSocket closed''\<rparr>" readyB]
  by (simp add: failingEnv_def readyA_def readyB_def sample_defs classifyA_plain)

text \<open>
  The claim as the spec states it fails in variant A: the two retries are set 2000
  milliseconds ahead each, with no backoff and no jitter, and after the third failure
  with a plain error the state is still \<open>CONNECTING\<close>, not \<open>ERROR\<close>.
\<close>

theorem open_failure_counterexample:
  "connectResult failingEnv 2 = Some \<lparr>err_name = ''Error'', err_message = ''WebSocket closed''\<rparr> \<and>
   timeouts (runStartA failingEnv True 0 readyA) = [(2000, 1), (2000, 2)] \<and>
   robotState (runStartA failingEnv True 0 readyA) = CONNECTING"
proof -
  have "runStartA failingEnv True 0 readyA =
     handleErrorA \<lparr>err_name = ''Error'', err_message = ''WebSocket closed''\<rparr>
       (readyA\<lparr>timeouts := timeouts readyA @ [(2000, 1), (2000, 2)],
          outputAudioCtxRef := True, robotState := CONNECTING, errorDetail := None,
          isActive := True, nextStartTimeRef := 0\<rparr>)"
    by (rule runStartA_all_fail) (simp_all add: failingEnv_def)
  then show ?thesis
    by (simp add: handleErrorA_fields classifyA_plain failingEnv_def readyA_def sample_defs)
qed

subsection \<open>C7: accumulation of transcripts\<close>

text \<open>
  Claim C7, as amended. While the deafened flag is off (variant A discards every
  message while deafened), each message appends the partial transcript it carries to
  the accumulator of its side (variant A appends the input transcript only when the
  message carries no output transcript), so partial transcripts accumulate by
  concatenation from message to message. A message that completes the turn appends
  exactly one log entry for each side whose accumulator is not empty (the user entry
  first, none for an empty side) and resets both accumulators to the empty string.
  In variant A a message with the interrupted flag whose audio decodes also empties
  the output accumulator, with no log entry. In variant B the flush logs the ref
  copies of the accumulators, which hold what was accumulated up to the last render,
  so the transcripts of the message that completes the turn itself are dropped.

  Hence, for every sequence of messages, whatever else they carry, the handlers
  compute what \<open>turns_spec\<close> describes for the transcript events of the messages: in
  variant A when no message carries both transcripts or an interruption short of a
  completed turn, in variant B (with a render after each message, from a state whose
  ref cells are in sync) when no message that completes the turn carries a transcript.
  For variant B the log is read without its system notices, which the tool calls add.
\<close>

theorem transcripts_flush_on_turn_complete:
  "(\<not> isDeafenedRef s \<longrightarrow>
      liveInput (final (onmessageA m s)) =
        (if turnComplete m then []
         else liveInput s @ (if outputTranscription m = None then heard m else [])) \<and>
      liveOutput (final (onmessageA m s)) =
        (if turnComplete m \<or> interrupted m \<and> decodes m then [] else liveOutput s @ said m) \<and>
      history (final (onmessageA m s)) =
        history s @
        (if turnComplete m
         then flushed (liveInput s @ (if outputTranscription m = None then heard m else []))
                (liveOutput s @ said m)
         else [])) \<and>
   currentInput (onmessageB m t) = (if turnComplete m then [] else currentInput t @ heard m) \<and>
   currentOutput (onmessageB m t) = (if turnComplete m then [] else currentOutput t @ said m) \<and>
   dialogue (history (onmessageB m t)) =
     dialogue (history t) @
     (if turnComplete m then flushed (currentInputRef t) (currentOutputRef t) else []) \<and>
   (\<not> isDeafenedRef s \<and> list_all plainA ms \<longrightarrow>
      (liveInput (messagesA ms s), liveOutput (messagesA ms s), history (messagesA ms s)) =
        turns_spec (concat (map eventsOf ms)) (liveInput s, liveOutput s, history s)) \<and>
   (synced t \<and> list_all plainB ms \<longrightarrow>
      (currentInput (messagesB ms t), currentOutput (messagesB ms t),
       dialogue (history (messagesB ms t))) =
        turns_spec (concat (map eventsOf ms))
          (currentInput t, currentOutput t, dialogue (history t)))"
  using onmessageA_accumulates(1,2,3)[of s m] onmessageB_accumulates[of m t]
    messagesA_plain[of s ms] messagesB_plain[of t ms]
  by blast

text \<open>
  The witness is the scenario of the spec in both variants, with the two buffers
  arriving between the two partial transcripts.
\<close>

theorem transcripts_flush_on_turn_complete_witness:
  "\<not> isDeafenedRef listeningA \<and> synced listeningB \<and>
   list_all plainA [messageOf (PartialTranscript OutputSide ''Hello''), twoBuffers,
      messageOf (PartialTranscript OutputSide '' there''), messageOf TurnComplete] \<and>
   list_all plainB [messageOf (PartialTranscript OutputSide ''Hello''), twoBuffers,
      messageOf (PartialTranscript OutputSide '' there''), messageOf TurnComplete] \<and>
   liveOutput (final (onmessageA (messageOf (PartialTranscript OutputSide ''Hello'')) listeningA)) =
     ''Hello'' \<and>
   history (messagesA [messageOf (PartialTranscript OutputSide ''Hello''), twoBuffers,
      messageOf (PartialTranscript OutputSide '' there''), messageOf TurnComplete] listeningA) =
     [\<lparr>etype = Robot, etext = ''Hello there''\<rparr>] \<and>
   liveOutput (messagesA [messageOf (PartialTranscript OutputSide ''Hello''), twoBuffers,
      messageOf (PartialTranscript OutputSide '' there''), messageOf TurnComplete] listeningA) = [] \<and>
   dialogue (history (messagesB [messageOf (PartialTranscript OutputSide ''Hello''), twoBuffers,
      messageOf (PartialTranscript OutputSide '' there''), messageOf TurnComplete] listeningB)) =
     [\<lparr>etype = Robot, etext = ''Hello there''\<rparr>] \<and>
   currentOutput (messagesB [messageOf (PartialTranscript OutputSide ''Hello''), twoBuffers,
      messageOf (PartialTranscript OutputSide '' there''), messageOf TurnComplete] listeningB) = []"
proof -
  let ?ms = "[messageOf (PartialTranscript OutputSide ''Hello''), twoBuffers,
      messageOf (PartialTranscript OutputSide '' there''), messageOf TurnComplete]"
  have h: "\<not> isDeafenedRef listeningA" "synced listeningB"
    "list_all plainA ?ms" "list_all plainB ?ms"
    by (simp_all add: sample_defs synced_def plainA_def plainB_def)
  have i: "liveInput listeningA = []" "liveOutput listeningA = []" "history listeningA = []"
    "currentInput listeningB = []" "currentOutput listeningB = []" "history listeningB = []"
    by (simp_all add: sample_defs)
  have e: "concat (map eventsOf ?ms) =
      [PartialTranscript OutputSide ''Hello'', PartialTranscript OutputSide '' there'', TurnComplete]"
    by (simp add: eventsOf_def sample_defs)
  have m: "turnComplete (messageOf (PartialTranscript OutputSide ''Hello'')) = False"
    "interrupted (messageOf (PartialTranscript OutputSide ''Hello'')) = False"
    "said (messageOf (PartialTranscript OutputSide ''Hello'')) = ''Hello''"
    by (simp_all add: said_def sample_defs)
  from transcripts_flush_on_turn_complete
    [of listeningA "messageOf (PartialTranscript OutputSide ''Hello'')" listeningB ?ms] h
  have "liveOutput (final (onmessageA (messageOf (PartialTranscript OutputSide ''Hello''))
          listeningA)) = ''Hello'' \<and>
      (liveInput (messagesA ?ms listeningA), liveOutput (messagesA ?ms listeningA),
       history (messagesA ?ms listeningA)) =
        ([], [], [\<lparr>etype = Robot, etext = ''Hello there''\<rparr>]) \<and>
      (currentInput (messagesB ?ms listeningB), currentOutput (messagesB ?ms listeningB),
       dialogue (history (messagesB ?ms listeningB))) =
        ([], [], [\<lparr>etype = Robot, etext = ''Hello there''\<rparr>])"
    unfolding e i m by (simp add: dialogue_def)
  with h show ?thesis by simp
qed

text \<open>
  The claim as the spec states it fails in four ways. In variant A the scenario of the
  spec leaves the log empty while the engine is deafened; an interruption between the
  two partial transcripts loses the first; and a message that carries both transcripts
  loses the input. In variant B a message that carries both the last partial
  transcript and the completion of the turn loses the text, since the ref cell read by
  the flush is still empty.
\<close>

theorem transcripts_lost_counterexample:
  "history (messagesA (map messageOf [PartialTranscript OutputSide ''Hello'',
      PartialTranscript OutputSide '' there'', TurnComplete]) (toggleDeafen listeningA)) = [] \<and>
   history (messagesA [messageOf (PartialTranscript OutputSide ''Hello''),
      silentMessage\<lparr>interrupted := True\<rparr>,
      messageOf (PartialTranscript OutputSide '' there''), messageOf TurnComplete] listeningA) =
     [\<lparr>etype = Robot, etext = '' there''\<rparr>] \<and>
   liveInput (final (onmessageA (silentMessage\<lparr>outputTranscription := Some ''Hello'',
      inputTranscription := Some ''Hi''\<rparr>) listeningA)) = [] \<and>
   synced listeningB \<and>
   history (onmessageB (silentMessage\<lparr>outputTranscription := Some ''Hello'',
      turnComplete := True\<rparr>) listeningB) = [] \<and>
   currentOutput (onmessageB (silentMessage\<lparr>outputTranscription := Some ''Hello'',
      turnComplete := True\<rparr>) listeningB) = []"
  by (simp add: sample_defs handler_defs toggleDeafen_def effect_isDeafened_def synced_def)

subsection \<open>C1: scheduling of inbound audio\<close>

text \<open>
  Claim C1, as amended. Enqueueing a fragment of duration \<open>d\<close> at clock reading \<open>now\<close>
  starts a new source at the later of the cursor and \<open>now\<close>, leaves the cursor at that
  start time plus \<open>d\<close> (an advance by exactly \<open>d\<close> only when the clock has not passed the
  cursor), adds the source to the in-flight set and sets the state to \<open>SPEAKING\<close>.

  The handler of an inbound message enqueues the fragments of its model turn in this
  way, in their order: the sources it starts are those of the recurrence
  \<open>start[i] = max (start[i-1] + d[i-1]) now[i]\<close>, the first one at the later of the cursor
  and its clock reading, so that a fragment that arrives before the previous one ends
  starts exactly where that one ends. Unless the message also carries the interrupted
  flag, the sources are in flight when the handler ends, the cursor is where the
  fragments left it and the state is \<open>SPEAKING\<close>.

  Variant A does so in every state in which the deafened flag is off, for a message
  whose audio parts all decode. Variant B, which skips a part that does not decode and
  moves the cursor to the clock first when nothing is in flight, does so in every
  state the component reaches by events that respect the clock.
\<close>

theorem enqueue_schedules_gapless:
  "(started (enqueueA now d s) =
      started s @ [\<lparr>sid = created s, startAt = max (nextStartTimeRef s) now, duration = d\<rparr>] \<and>
    sourcesRef (enqueueA now d s) =
      sourcesRef s @ [\<lparr>sid = created s, startAt = max (nextStartTimeRef s) now, duration = d\<rparr>] \<and>
    nextStartTimeRef (enqueueA now d s) = max (nextStartTimeRef s) now + d \<and>
    (now \<le> nextStartTimeRef s \<longrightarrow>
       nextStartTimeRef (enqueueA now d s) = nextStartTimeRef s + d) \<and>
    robotState (enqueueA now d s) = SPEAKING) \<and>
   (reachB c t \<and> c \<le> now \<longrightarrow>
    started (enqueueB now (Some d) t) =
      started t @ [\<lparr>sid = created t, startAt = max (nextStartTimeRef t) now, duration = d\<rparr>] \<and>
    sourcesRef (enqueueB now (Some d) t) =
      sourcesRef t @ [\<lparr>sid = created t, startAt = max (nextStartTimeRef t) now, duration = d\<rparr>] \<and>
    nextStartTimeRef (enqueueB now (Some d) t) = max (nextStartTimeRef t) now + d \<and>
    (now \<le> nextStartTimeRef t \<longrightarrow>
       nextStartTimeRef (enqueueB now (Some d) t) = nextStartTimeRef t + d) \<and>
    robotState (enqueueB now (Some d) t) = SPEAKING) \<and>
   (\<not> isDeafenedRef s \<and> decodes m \<longrightarrow>
    startedSince s (final (onmessageA m s)) =
      schedule_spec (nextStartTimeRef s) (fragments m) \<and>
    obeysRecurrence (nextStartTimeRef s) (fragments m)
      (startedSince s (final (onmessageA m s))) \<and>
    gapless (fragments m) (startedSince s (final (onmessageA m s))) \<and>
    (\<not> interrupted m \<longrightarrow>
       sourcesRef (final (onmessageA m s)) =
         sourcesRef s @ drop (length (started s)) (started (final (onmessageA m s))) \<and>
       nextStartTimeRef (final (onmessageA m s)) =
         cursorAfter (nextStartTimeRef s) (fragments m) \<and>
       (fragments m \<noteq> [] \<longrightarrow> robotState (final (onmessageA m s)) = SPEAKING))) \<and>
   (reachB c t \<and> okB c t clk (MessageB m) \<longrightarrow>
    startedSince t (onmessageB m t) = schedule_spec (nextStartTimeRef t) (fragments m) \<and>
    obeysRecurrence (nextStartTimeRef t) (fragments m) (startedSince t (onmessageB m t)) \<and>
    gapless (fragments m) (startedSince t (onmessageB m t)) \<and>
    (\<not> interrupted m \<longrightarrow>
       sourcesRef (onmessageB m t) =
         sourcesRef t @ drop (length (started t)) (started (onmessageB m t)) \<and>
       (decodes m \<longrightarrow>
          nextStartTimeRef (onmessageB m t) = cursorAfter (nextStartTimeRef t) (fragments m)) \<and>
       (fragments m \<noteq> [] \<longrightarrow> robotState (onmessageB m t) = SPEAKING)))"
proof -
  have a1: "started (enqueueA now d s) =
      started s @ [\<lparr>sid = created s, startAt = max (nextStartTimeRef s) now, duration = d\<rparr>] \<and>
    sourcesRef (enqueueA now d s) =
      sourcesRef s @ [\<lparr>sid = created s, startAt = max (nextStartTimeRef s) now, duration = d\<rparr>] \<and>
    nextStartTimeRef (enqueueA now d s) = max (nextStartTimeRef s) now + d \<and>
    (now \<le> nextStartTimeRef s \<longrightarrow>
       nextStartTimeRef (enqueueA now d s) = nextStartTimeRef s + d) \<and>
    robotState (enqueueA now d s) = SPEAKING"
    by simp
  have b1: "started (enqueueB now (Some d) t) =
      started t @ [\<lparr>sid = created t, startAt = max (nextStartTimeRef t) now, duration = d\<rparr>] \<and>
    sourcesRef (enqueueB now (Some d) t) =
      sourcesRef t @ [\<lparr>sid = created t, startAt = max (nextStartTimeRef t) now, duration = d\<rparr>] \<and>
    nextStartTimeRef (enqueueB now (Some d) t) = max (nextStartTimeRef t) now + d \<and>
    (now \<le> nextStartTimeRef t \<longrightarrow>
       nextStartTimeRef (enqueueB now (Some d) t) = nextStartTimeRef t + d) \<and>
    robotState (enqueueB now (Some d) t) = SPEAKING" if r: "reachB c t \<and> c \<le> now"
  proof -
    from r have "cursorInv c t" by (simp add: reachB_cursorInv)
    with r have "sourcesRef t = [] \<longrightarrow> nextStartTimeRef t \<le> now"
      using cursorInv_empty[of c t] by auto
    from enqueueB_Some[OF this, of d] show ?thesis by simp
  qed
  have a2: "startedSince s (final (onmessageA m s)) =
      schedule_spec (nextStartTimeRef s) (fragments m) \<and>
    obeysRecurrence (nextStartTimeRef s) (fragments m)
      (startedSince s (final (onmessageA m s))) \<and>
    gapless (fragments m) (startedSince s (final (onmessageA m s))) \<and>
    (\<not> interrupted m \<longrightarrow>
       sourcesRef (final (onmessageA m s)) =
         sourcesRef s @ drop (length (started s)) (started (final (onmessageA m s))) \<and>
       nextStartTimeRef (final (onmessageA m s)) =
         cursorAfter (nextStartTimeRef s) (fragments m) \<and>
       (fragments m \<noteq> [] \<longrightarrow> robotState (final (onmessageA m s)) = SPEAKING))"
    if h: "\<not> isDeafenedRef s \<and> decodes m"
  proof -
    from h have h1: "\<not> isDeafenedRef s" and h2: "decodes m" by simp_all
    note l = onmessageA_schedule[OF h1 h2]
    have "obeysRecurrence (nextStartTimeRef s) (fragments m)
        (startedSince s (final (onmessageA m s)))"
      unfolding l(1) by (rule obeysRecurrence_schedule_spec)
    with l obeysRecurrence_gapless[of "nextStartTimeRef s" "fragments m"
        "startedSince s (final (onmessageA m s))"]
    show ?thesis by blast
  qed
  have b2: "startedSince t (onmessageB m t) = schedule_spec (nextStartTimeRef t) (fragments m) \<and>
    obeysRecurrence (nextStartTimeRef t) (fragments m) (startedSince t (onmessageB m t)) \<and>
    gapless (fragments m) (startedSince t (onmessageB m t)) \<and>
    (\<not> interrupted m \<longrightarrow>
       sourcesRef (onmessageB m t) =
         sourcesRef t @ drop (length (started t)) (started (onmessageB m t)) \<and>
       (decodes m \<longrightarrow>
          nextStartTimeRef (onmessageB m t) = cursorAfter (nextStartTimeRef t) (fragments m)) \<and>
       (fragments m \<noteq> [] \<longrightarrow> robotState (onmessageB m t) = SPEAKING))"
    if r: "reachB c t \<and> okB c t clk (MessageB m)"
  proof -
    from r have i: "cursorInv c t" by (simp add: reachB_cursorInv)
    from r have o: "okB c t clk (MessageB m)" by simp
    note l = onmessageB_schedule[OF i o]
    have "obeysRecurrence (nextStartTimeRef t) (fragments m) (startedSince t (onmessageB m t))"
      unfolding l(1) by (rule obeysRecurrence_schedule_spec)
    with l obeysRecurrence_gapless[of "nextStartTimeRef t" "fragments m"
        "startedSince t (onmessageB m t)"]
    show ?thesis by blast
  qed
  from a1 b1 a2 b2 show ?thesis by blast
qed

text \<open>
  The witness is a message of three fragments in a fresh session of each variant: two
  of 2 and 1 seconds at clock reading 5, and one of 1 second at clock reading 9. They
  start at 5, 7 and 9: the second where the first ends, the third at its clock reading,
  since the queue had run dry at 8. The cursor is left at 10.
\<close>

theorem enqueue_schedules_gapless_witness:
  "\<not> isDeafenedRef listeningA \<and> decodes threeBuffers \<and> \<not> interrupted threeBuffers \<and>
   reachB 0 listeningB \<and> okB 0 listeningB 5 (MessageB threeBuffers) \<and> (0::real) \<le> 5 \<and>
   fragments threeBuffers = [(5, 2), (5, 1), (9, 1)] \<and>
   startedSince listeningA (final (onmessageA threeBuffers listeningA)) =
     [(5, 2), (7, 1), (9, 1)] \<and>
   nextStartTimeRef (final (onmessageA threeBuffers listeningA)) = 10 \<and>
   robotState (final (onmessageA threeBuffers listeningA)) = SPEAKING \<and>
   startedSince listeningB (onmessageB threeBuffers listeningB) = [(5, 2), (7, 1), (9, 1)] \<and>
   nextStartTimeRef (onmessageB threeBuffers listeningB) = 10 \<and>
   robotState (onmessageB threeBuffers listeningB) = SPEAKING \<and>
   nextStartTimeRef (enqueueA 5 2 listeningA) = 7 \<and>
   nextStartTimeRef (enqueueB 5 (Some 2) listeningB) = 7"
proof -
  have r: "reachB 0 listeningB"
    by (rule reachB_listeningB)
  have h: "\<not> isDeafenedRef listeningA" "decodes threeBuffers" "\<not> interrupted threeBuffers"
    "okB 0 listeningB 5 (MessageB threeBuffers)"
    by (simp_all add: threeBuffers_def decodes_def sample_defs)
  have f: "fragments threeBuffers = [(5, 2), (5, 1), (9, 1)]"
    by (simp add: fragments_def threeBuffers_def sample_defs)
  have z: "nextStartTimeRef listeningB = 0" "nextStartTimeRef listeningA = 0"
    by (simp_all add: sample_defs)
  from enqueue_schedules_gapless[of 5 2 listeningA 0 listeningB threeBuffers 5] r h
  have "startedSince listeningA (final (onmessageA threeBuffers listeningA)) =
       [(5, 2), (7, 1), (9, 1)] \<and>
     nextStartTimeRef (final (onmessageA threeBuffers listeningA)) = 10 \<and>
     robotState (final (onmessageA threeBuffers listeningA)) = SPEAKING \<and>
     startedSince listeningB (onmessageB threeBuffers listeningB) = [(5, 2), (7, 1), (9, 1)] \<and>
     nextStartTimeRef (onmessageB threeBuffers listeningB) = 10 \<and>
     robotState (onmessageB threeBuffers listeningB) = SPEAKING \<and>
     nextStartTimeRef (enqueueA 5 2 listeningA) = 7 \<and>
     nextStartTimeRef (enqueueB 5 (Some 2) listeningB) = 7"
    unfolding f z by simp
  with r h f show ?thesis by simp
qed

text \<open>
  The claim as the spec states it fails in three ways. The cursor does not advance by
  the duration when the clock has passed it: a fragment of 2 seconds enqueued at clock
  reading 5 moves it from 0 to 7, in both variants. A deafened variant A enqueues
  nothing of the two buffers. And variant A enqueues nothing of a model turn whose
  first part does not decode, where variant B enqueues the part that does.
\<close>

theorem enqueue_cursor_counterexample:
  "fragments oneBuffer = [(5, 2)] \<and>
   nextStartTimeRef listeningA = 0 \<and>
   nextStartTimeRef (final (onmessageA oneBuffer listeningA)) = 7 \<and>
   nextStartTimeRef listeningB = 0 \<and>
   nextStartTimeRef (onmessageB oneBuffer listeningB) = 7 \<and>
   isDeafenedRef (toggleDeafen listeningA) \<and>
   fragments twoBuffers = [(5, 2), (5, 1)] \<and>
   started (final (onmessageA twoBuffers (toggleDeafen listeningA))) = [] \<and>
   robotState (final (onmessageA twoBuffers (toggleDeafen listeningA))) = LISTENING \<and>
   fragments brokenTurn = [(5, 2)] \<and>
   started (final (onmessageA brokenTurn listeningA)) = [] \<and>
   startedSince listeningB (onmessageB brokenTurn listeningB) = [(5, 2)]"
  by (simp add: fragments_def oneBuffer_def brokenTurn_def startedSince_def sample_defs
      handler_defs toggleDeafen_def effect_isDeafened_def)

subsection \<open>C8: the cursor never goes back\<close>

text \<open>
  Claim C8. Within a session the playback cursor does not decrease under any event,
  except that it is set to zero when a session is created (\<open>StartSession\<close>), on an
  interruption (a message with the flag) and on teardown (\<open>StopSession\<close>, and in variant
  A an error that \<^verbatim>\<open>handleError\<close> classifies critical, which shuts the session down).
  For variant A this holds in every state, given that no buffer has a negative
  duration. For variant B it holds in every state the component reaches by events
  that respect the clock.
\<close>

theorem cursor_monotone:
  "(durationsOk e \<longrightarrow>
      nextStartTimeRef s \<le> nextStartTimeRef (stepA e s) \<or>
      resetsA e \<and> nextStartTimeRef (stepA e s) = 0) \<and>
   (reachB c t \<and> okB c t clk eb \<longrightarrow>
      reachB (clockAfter clk eb) (stepB eb t) \<and>
      (nextStartTimeRef t \<le> nextStartTimeRef (stepB eb t) \<or>
       resetsB eb \<and> nextStartTimeRef (stepB eb t) = 0))"
proof (rule conjI; rule impI)
  assume "durationsOk e"
  then show "nextStartTimeRef s \<le> nextStartTimeRef (stepA e s) \<or>
      resetsA e \<and> nextStartTimeRef (stepA e s) = 0"
    by (rule stepA_cursor)
next
  assume a: "reachB c t \<and> okB c t clk eb"
  then have "cursorInv c t"
    by (simp add: reachB_cursorInv)
  with a have "nextStartTimeRef t \<le> nextStartTimeRef (stepB eb t) \<or>
       resetsB eb \<and> nextStartTimeRef (stepB eb t) = 0"
    using stepB_cursor[of c t clk eb] by simp
  moreover from a have "reachB (clockAfter clk eb) (stepB eb t)"
    by (blast intro: reachB.step)
  ultimately show "reachB (clockAfter clk eb) (stepB eb t) \<and>
      (nextStartTimeRef t \<le> nextStartTimeRef (stepB eb t) \<or>
       resetsB eb \<and> nextStartTimeRef (stepB eb t) = 0)"
    by simp
qed

text \<open>
  The witness lets the two buffers arrive in a fresh session of each variant (the
  cursor goes from 0 to 8) and then shuts variant A down (the cursor goes to 0).
\<close>

theorem cursor_monotone_witness:
  "durationsOk (Message twoBuffers) \<and> nextStartTimeRef listeningA = 0 \<and>
   nextStartTimeRef (stepA (Message twoBuffers) listeningA) = 8 \<and>
   durationsOk StopSession \<and> resetsA StopSession \<and>
   nextStartTimeRef (stepA StopSession (stepA (Message twoBuffers) listeningA)) = 0 \<and>
   reachB 0 listeningB \<and> okB 0 listeningB 5 (MessageB twoBuffers) \<and>
   reachB 5 (stepB (MessageB twoBuffers) listeningB) \<and>
   nextStartTimeRef (stepB (MessageB twoBuffers) listeningB) = 8"
proof -
  have r: "reachB 0 listeningB"
    by (rule reachB_listeningB)
  have o: "okB 0 listeningB 5 (MessageB twoBuffers)"
    by (simp add: sample_defs)
  have c: "clockAfter 5 (MessageB twoBuffers) = 5"
    by (simp add: sample_defs)
  from cursor_monotone[of "Message twoBuffers" listeningA 0 listeningB 5 "MessageB twoBuffers"] r o
  have "reachB 5 (stepB (MessageB twoBuffers) listeningB)"
    unfolding c by simp
  moreover have "nextStartTimeRef (stepA (Message twoBuffers) listeningA) = 8 \<and>
      nextStartTimeRef (stepA StopSession (stepA (Message twoBuffers) listeningA)) = 0 \<and>
      nextStartTimeRef listeningA = 0 \<and> durationsOk (Message twoBuffers)"
    by (simp add: stepA_def effectsA_def stopSessionA_def sample_defs handler_defs)
  moreover have "nextStartTimeRef (stepB (MessageB twoBuffers) listeningB) = 8"
    by (simp add: stepB_def effectsB_def sample_defs handler_defs)
  ultimately show ?thesis
    using r o by simp
qed

end
